theory Spec2Isabelle
  imports Main
begin

section \<open>Constants of the crawler\<close>

text \<open>
  The module-level constants of \<^verbatim>\<open>src/index.ts\<close>. A \<^typ>\<open>string\<close> stands for a
  JavaScript string whose code units are below 256; a \<^typ>\<open>char\<close> is one code unit.
\<close>

definition DNDTOOLS_URL_BASE :: string where
  "DNDTOOLS_URL_BASE = ''https://dndtools.net''"

definition RULEBOOKS :: "string list" where
  "RULEBOOKS = [''Player's Handbook v.3.5'', ''Spell Compendium'']"

definition CONCURRENCY :: nat where
  "CONCURRENCY = 4"

definition RETRY_LIMIT :: int where
  "RETRY_LIMIT = 10"

section \<open>Thrown values, log lines, numbers\<close>

text \<open>
  A thrown value is an \<open>Error\<close> with its message. A call of the winston logger is a
  \<open>Log\<close> line: the level, the message, and the error of the metadata object when the
  call passes one (the other metadata, values read and counters, is left out).
  A JavaScript number that \<^verbatim>\<open>parseInt\<close> returns is a double: \<open>NaN\<close>, an infinity, or a
  finite double, which is an integer (\<open>Num\<close>; the sign of zero is not kept).
\<close>

datatype error = Error string

datatype severity = Debug | Verbose | Info | Warn | Fatal

datatype log_entry = Log severity string "error option"

datatype number = NaN | Num int | Infinity | NegInfinity

definition TypeError :: error where
  "TypeError = Error ''TypeError: Cannot read property of null or undefined''"

section \<open>Strings and regular expressions\<close>

definition isDigit :: "char \<Rightarrow> bool" where
  "isDigit c = (c \<in> set ''0123456789'')"

text \<open>Line terminators (LF, CR) and white space (\<^verbatim>\<open>\s\<close>: TAB, LF, VT, FF, CR, SP, NBSP).\<close>

definition isLineTerminator :: "char \<Rightarrow> bool" where
  "isLineTerminator c = (c \<in> set [CHR 0x0A, CHR 0x0D])"

definition isWhiteSpace :: "char \<Rightarrow> bool" where
  "isWhiteSpace c = (c \<in> set [CHR 0x09, CHR 0x0A, CHR 0x0B, CHR 0x0C, CHR 0x0D, CHR 0x20, CHR 0xA0])"

text \<open>\<^verbatim>\<open>String.prototype.trim\<close>: white space is removed at both ends.\<close>

definition trim :: "string \<Rightarrow> string" where
  "trim s = rev (dropWhile isWhiteSpace (rev (dropWhile isWhiteSpace s)))"

text \<open>
  The value of a digit in \<^verbatim>\<open>parseInt\<close>: \<open>0..9\<close>, then the letters in either case from
  10 on; 36 for every other character, which no radix accepts.
\<close>

definition digitVal :: "char \<Rightarrow> nat" where
  "digitVal c =
     (let n = (of_char c :: nat) in
      if 48 \<le> n \<and> n \<le> 57 then n - 48
      else if 97 \<le> n \<and> n \<le> 122 then n - 87
      else if 65 \<le> n \<and> n \<le> 90 then n - 55
      else 36)"

text \<open>
  The conversion of a non-negative integer to a double: the number of bits of the
  integer; then the integer rounded to 53 significant bits, to the nearest and to
  the even one of two neighbours at equal distance. \<open>None\<close> is the overflow: a rounded
  value of \<open>2 ^ 1024\<close> or more has no double and reads as an infinity.
\<close>

function bitLength :: "int \<Rightarrow> nat" where
  "bitLength n = (if n \<le> 0 then 0 else Suc (bitLength (n div 2)))"
  by pat_completeness auto
termination
  by (relation "measure nat") auto

definition toDouble :: "int \<Rightarrow> int option" where
  "toDouble v =
     (let e = bitLength v - 53;
          q = v div 2 ^ e;
          r = v mod 2 ^ e;
          q' = (if 2 * r > 2 ^ e \<or> (2 * r = 2 ^ e \<and> odd q) then q + 1 else q);
          d = q' * 2 ^ e
      in if bitLength d > 1024 then None else Some d)"

text \<open>
  \<^verbatim>\<open>parseInt(s)\<close> with no radix: leading white space is skipped, a sign is read, a
  prefix \<^verbatim>\<open>0x\<close> or \<^verbatim>\<open>0X\<close> selects radix 16, and the longest run of digits of the radix
  is read as an integer; the result is \<open>NaN\<close> when that run is empty, and otherwise the
  double of the integer with the sign. (ECMAScript lets an engine approximate a
  decimal run beyond its 20th digit; V8, the engine of node and of the browser, rounds
  the whole run correctly, which is what \<open>toDouble\<close> does.)
\<close>

definition parseInt :: "string \<Rightarrow> number" where
  "parseInt s =
     (let s1 = dropWhile isWhiteSpace s;
          neg = (take 1 s1 = ''-'');
          s2 = (if take 1 s1 = ''-'' \<or> take 1 s1 = ''+'' then drop 1 s1 else s1);
          hex = (take 2 s2 = ''0x'' \<or> take 2 s2 = ''0X'');
          radix = (if hex then 16 else 10);
          s3 = (if hex then drop 2 s2 else s2);
          ds = takeWhile (\<lambda>c. digitVal c < radix) s3;
          v = foldl (\<lambda>a c. a * int radix + int (digitVal c)) 0 ds
      in if ds = [] then NaN
         else (case toDouble v of
                 None \<Rightarrow> if neg then NegInfinity else Infinity
               | Some d \<Rightarrow> Num (if neg then - d else d)))"

text \<open>
  \<^verbatim>\<open>/(\d+)\/?$/.exec(url)\<close>, group 1. The engine tries the start positions from the
  left; at one position the greedy \<^verbatim>\<open>\d+\<close> takes the whole run of digits, and what
  follows must be the end of the input or one slash and the end. \<open>None\<close> is the
  \<^verbatim>\<open>null\<close> of a failed match.
\<close>

definition id_match_here :: "string \<Rightarrow> bool" where
  "id_match_here s =
     (takeWhile isDigit s \<noteq> [] \<and> (dropWhile isDigit s = [] \<or> dropWhile isDigit s = ''/''))"

fun exec_id :: "string \<Rightarrow> string option" where
  "exec_id [] = None"
| "exec_id (c # cs) =
     (if id_match_here (c # cs) then Some (takeWhile isDigit (c # cs)) else exec_id cs)"

text \<open>
  \<^verbatim>\<open>/^(.*)\s(\d+)$/.exec(str)\<close>, groups 1 and 2. The greedy \<^verbatim>\<open>.*\<close> is tried from its
  longest extent down; a split at \<open>i\<close> matches when no line terminator stands before
  \<open>i\<close>, the character at \<open>i\<close> is white space and a non-empty run of digits fills the
  rest of the input.
\<close>

definition classLevel_match_at :: "string \<Rightarrow> nat \<Rightarrow> bool" where
  "classLevel_match_at str i =
     (i < length str \<and> list_all (\<lambda>c. \<not> isLineTerminator c) (take i str) \<and>
      isWhiteSpace (str ! i) \<and> drop (Suc i) str \<noteq> [] \<and> list_all isDigit (drop (Suc i) str))"

definition exec_classLevel :: "string \<Rightarrow> (string \<times> string) option" where
  "exec_classLevel str =
     (case find (classLevel_match_at str) (rev [0..<length str]) of
        None \<Rightarrow> None
      | Some i \<Rightarrow> Some (take i str, drop (Suc i) str))"

text \<open>\<^verbatim>\<open>/\d+/.exec(s)\<close>, group 0: the first run of digits.\<close>

definition exec_digits :: "string \<Rightarrow> string option" where
  "exec_digits s =
     (let r = dropWhile (\<lambda>c. \<not> isDigit c) s
      in if r = [] then None else Some (takeWhile isDigit r))"

section \<open>The document as the crawler reads it\<close>

text \<open>
  The rendering engine (puppeteer) is outside the repository; the model holds what the
  crawler's queries return. An element handle carries the properties the crawler reads:
  \<^verbatim>\<open>textContent\<close>, \<^verbatim>\<open>innerHTML\<close>, \<^verbatim>\<open>getAttribute\<close>, the \<^verbatim>\<open>textContent\<close> of its
  \<^verbatim>\<open>nextSibling\<close> (\<open>None\<close> when \<^verbatim>\<open>nextSibling\<close> is \<^verbatim>\<open>null\<close>), and the answers to
  \<^verbatim>\<open>handle.$(selector)\<close>. A page answers \<^verbatim>\<open>$\<close> (\<open>queryOne\<close>), \<^verbatim>\<open>$$\<close> (\<open>queryAll\<close>)
  and \<^verbatim>\<open>$x\<close> (\<open>queryByTextPath\<close>); every query can raise (\<open>Inl\<close>). Reading a property
  of a handle that a query returned does not raise by itself; the functions the
  crawler evaluates on a handle raise where they dereference \<^verbatim>\<open>null\<close>.
\<close>

datatype element = Element
  (textContent: string)
  (innerHTML: string)
  (getAttribute: "string \<Rightarrow> string option")
  (nextSibling: "string option")
  (elem_queryOne: "string \<Rightarrow> error + element option")

record page =
  queryOne :: "string \<Rightarrow> error + element option"
  queryAll :: "string \<Rightarrow> error + element list"
  queryByTextPath :: "string \<Rightarrow> error + element list"

definition notFound :: "string \<Rightarrow> error" where
  \<open>notFound selector = Error (''Error: failed to find element matching selector "'' @ selector @ ''"'')\<close>

text \<open>
  \<^verbatim>\<open>handle.$eval(selector, fn)\<close> and \<^verbatim>\<open>page.$eval(selector, fn)\<close>: the query raises, or
  no element matches and \<^verbatim>\<open>$eval\<close> raises, or \<open>fn\<close> runs on the first match.
  \<^verbatim>\<open>page.$$eval(selector, fn)\<close> runs \<open>fn\<close> on the list of matches.
\<close>

definition eval_first :: "(string \<Rightarrow> error + element option) \<Rightarrow> string \<Rightarrow> (element \<Rightarrow> error + 'a) \<Rightarrow> error + 'a" where
  "eval_first q selector fn =
     (case q selector of
        Inl e \<Rightarrow> Inl e
      | Inr None \<Rightarrow> Inl (notFound selector)
      | Inr (Some el) \<Rightarrow> fn el)"

definition eval_all :: "page \<Rightarrow> string \<Rightarrow> (element list \<Rightarrow> error + 'a) \<Rightarrow> error + 'a" where
  "eval_all p selector fn =
     (case queryAll p selector of
        Inl e \<Rightarrow> Inl e
      | Inr els \<Rightarrow> fn els)"

text \<open>\<^verbatim>\<open>Promise.all(xs.map(f))\<close>: every result, or the error of the first element that fails.\<close>

fun promise_all :: "('a \<Rightarrow> error + 'b) \<Rightarrow> 'a list \<Rightarrow> error + 'b list" where
  "promise_all f [] = Inr []"
| "promise_all f (x # xs) =
     (case f x of
        Inl e \<Rightarrow> Inl e
      | Inr y \<Rightarrow> (case promise_all f xs of Inl e \<Rightarrow> Inl e | Inr ys \<Rightarrow> Inr (y # ys)))"

section \<open>The records of a spell\<close>

text \<open>
  The field \<^verbatim>\<open>class\<close> is \<open>class_name\<close>, \<^verbatim>\<open>id\<close> is \<open>spell_id\<close> and \<^verbatim>\<open>range\<close> is \<open>spell_range\<close>.
  \<open>None\<close> is \<^verbatim>\<open>null\<close>: \<^verbatim>\<open>parseClassSpellLevel\<close> returns it, and \<^verbatim>\<open>getAttribute\<close> does
  for an attribute that is absent, so the elements of \<open>classLevels\<close> and
  \<open>components\<close> are optional.
\<close>

record classSpellLevel =
  class_name :: string
  level :: number

record domainSpellLevel =
  domain :: string
  domain_level :: number

record spellSource =
  rulebook :: string
  source_page :: number

record spell =
  spell_id :: string
  name :: string
  source :: "spellSource option"
  description :: "string option"
  classLevels :: "classSpellLevel option list"
  domainLevels :: "domainSpellLevel list"
  schools :: "string list"
  subschools :: "string list"
  descriptors :: "string list"
  components :: "string option list"
  castingTime :: "string option"
  spell_range :: "string option"
  area :: "string option"
  target :: "string option"
  effect :: "string option"
  duration :: "string option"
  savingThrow :: "string option"
  spellResistance :: "string option"

section \<open>Field extractors\<close>

definition parseClassSpellLevel :: "string \<Rightarrow> classSpellLevel option" where
  "parseClassSpellLevel str =
     (case exec_classLevel str of
        None \<Rightarrow> None
      | Some (r1, r2) \<Rightarrow> Some \<lparr>class_name = r1, level = parseInt r2\<rparr>)"

text \<open>
  Each extractor \<open>readX\<close> is a \<^verbatim>\<open>try\<close> block, here \<open>readX_try\<close>, and its \<^verbatim>\<open>catch\<close>. It
  returns the value and the lines it logs. \<open>readName\<close> rethrows.
\<close>

definition readName :: "page \<Rightarrow> error + (string \<times> log_entry list)" where
  "readName p =
     (case eval_first (queryOne p) ''#content h2'' (\<lambda>e. Inr (trim (textContent e))) of
        Inr nm \<Rightarrow> Inr (nm, [Log Debug ''Read name.'' None])
      | Inl error \<Rightarrow> Inl error)"

definition readSource_try :: "page \<Rightarrow> error + spellSource" where
  \<open>readSource_try p =
     eval_first (queryOne p) ''#content a[href^="/rulebooks/"]''
       (\<lambda>e. case nextSibling e of
               None \<Rightarrow> Inl TypeError
             | Some t \<Rightarrow>
                 (case exec_digits t of
                    None \<Rightarrow> Inl TypeError
                  | Some d \<Rightarrow> Inr \<lparr>rulebook = trim (textContent e), source_page = parseInt d\<rparr>))\<close>

definition readSource :: "page \<Rightarrow> spellSource option \<times> log_entry list" where
  "readSource p =
     (case readSource_try p of
        Inr src \<Rightarrow> (Some src, [Log Debug ''Read source.'' None])
      | Inl error \<Rightarrow> (None, [Log Warn ''Could not read spell source.'' (Some error)]))"

definition readSchools_try :: "page \<Rightarrow> error + string list" where
  \<open>readSchools_try p =
     eval_all p ''#content a[href^="/spells/schools/"]'' (\<lambda>el. Inr (map (\<lambda>e. trim (textContent e)) el))\<close>

definition readSchools :: "page \<Rightarrow> string list \<times> log_entry list" where
  "readSchools p =
     (case readSchools_try p of
        Inr v \<Rightarrow> (v, [Log Debug ''Read schools.'' None])
      | Inl error \<Rightarrow> ([], [Log Warn ''Could not read spell schools.'' (Some error)]))"

definition readSubschools_try :: "page \<Rightarrow> error + string list" where
  \<open>readSubschools_try p =
     eval_all p ''#content a[href^="/spells/sub-schools/"]'' (\<lambda>el. Inr (map (\<lambda>e. trim (textContent e)) el))\<close>

definition readSubschools :: "page \<Rightarrow> string list \<times> log_entry list" where
  "readSubschools p =
     (case readSubschools_try p of
        Inr v \<Rightarrow> (v, [Log Debug ''Read subschools.'' None])
      | Inl error \<Rightarrow> ([], [Log Warn ''Could not read spell subschools.'' (Some error)]))"

definition readDescriptors_try :: "page \<Rightarrow> error + string list" where
  \<open>readDescriptors_try p =
     eval_all p ''#content a[href^="/spells/descriptors/"]'' (\<lambda>el. Inr (map (\<lambda>e. trim (textContent e)) el))\<close>

definition readDescriptors :: "page \<Rightarrow> string list \<times> log_entry list" where
  "readDescriptors p =
     (case readDescriptors_try p of
        Inr v \<Rightarrow> (v, [Log Debug ''Read descriptors.'' None])
      | Inl error \<Rightarrow> ([], [Log Warn ''Could not read spell descriptors.'' (Some error)]))"

definition readClassLevels_try :: "page \<Rightarrow> error + classSpellLevel option list" where
  \<open>readClassLevels_try p =
     (case eval_all p ''#content a[href^="/classes/"]'' (\<lambda>el. Inr (map textContent el)) of
        Inl e \<Rightarrow> Inl e
      | Inr texts \<Rightarrow> Inr (map parseClassSpellLevel texts))\<close>

definition readClassLevels :: "page \<Rightarrow> classSpellLevel option list \<times> log_entry list" where
  "readClassLevels p =
     (case readClassLevels_try p of
        Inr v \<Rightarrow> (v, [Log Debug ''Read classLevels.'' None])
      | Inl error \<Rightarrow> ([], [Log Warn ''Could not read spell classLevels.'' (Some error)]))"

definition readDomainLevel :: "element \<Rightarrow> error + domainSpellLevel" where
  "readDomainLevel e =
     (case nextSibling e of
        None \<Rightarrow> Inl TypeError
      | Some t \<Rightarrow> Inr \<lparr>domain = textContent e, domain_level = parseInt t\<rparr>)"

definition readDomainLevels_try :: "page \<Rightarrow> error + domainSpellLevel list" where
  \<open>readDomainLevels_try p =
     (case queryAll p ''#content a[href^="/spells/domains/"]'' of
        Inl e \<Rightarrow> Inl e
      | Inr domainNameElements \<Rightarrow> promise_all readDomainLevel domainNameElements)\<close>

definition readDomainLevels :: "page \<Rightarrow> domainSpellLevel list \<times> log_entry list" where
  "readDomainLevels p =
     (case readDomainLevels_try p of
        Inr v \<Rightarrow> (v, [Log Debug ''Read domainLevels.'' None])
      | Inl error \<Rightarrow> ([], [Log Warn ''Could not read spell domainLevels.'' (Some error)]))"

definition readComponents_try :: "page \<Rightarrow> error + string option list" where
  \<open>readComponents_try p =
     (case queryByTextPath p ''//strong[text()="Components:"]/following-sibling::abbr'' of
        Inl e \<Rightarrow> Inl e
      | Inr ehs \<Rightarrow> promise_all (\<lambda>eh. Inr (getAttribute eh ''title'')) ehs)\<close>

definition readComponents :: "page \<Rightarrow> string option list \<times> log_entry list" where
  "readComponents p =
     (case readComponents_try p of
        Inr v \<Rightarrow> (v, [Log Debug ''Read components.'' None])
      | Inl error \<Rightarrow> ([], [Log Warn ''Could not read spell components.'' (Some error)]))"

text \<open>
  \<^verbatim>\<open>(await page.$x(path))[0].evaluate(e => e.textContent.trim())\<close>: the eight text fields
  share this expression; an empty result makes \<^verbatim>\<open>[0]\<close> undefined and the call raises.
\<close>

definition firstText :: "page \<Rightarrow> string \<Rightarrow> error + string" where
  "firstText p path =
     (case queryByTextPath p path of
        Inl e \<Rightarrow> Inl e
      | Inr [] \<Rightarrow> Inl TypeError
      | Inr (e # _) \<Rightarrow> Inr (trim (textContent e)))"

definition readCastingTime_try :: "page \<Rightarrow> error + string" where
  \<open>readCastingTime_try p = firstText p ''//strong[text()="Casting Time:"]/following-sibling::text()[1]''\<close>

definition readCastingTime :: "page \<Rightarrow> string option \<times> log_entry list" where
  "readCastingTime p =
     (case readCastingTime_try p of
        Inr v \<Rightarrow> (Some v, [Log Debug ''Read castingTime.'' None])
      | Inl error \<Rightarrow> (None, [Log Warn ''Could not read spell castingTime.'' (Some error)]))"

definition readRange_try :: "page \<Rightarrow> error + string" where
  \<open>readRange_try p = firstText p ''//strong[text()="Range:"]/following-sibling::text()[1]''\<close>

definition readRange :: "page \<Rightarrow> string option \<times> log_entry list" where
  "readRange p =
     (case readRange_try p of
        Inr v \<Rightarrow> (Some v, [Log Debug ''Read range.'' None])
      | Inl error \<Rightarrow> (None, [Log Warn ''Could not read spell range.'' (Some error)]))"

definition readArea_try :: "page \<Rightarrow> error + string" where
  \<open>readArea_try p = firstText p ''//strong[text()="Area:"]/following-sibling::text()[1]''\<close>

definition readArea :: "page \<Rightarrow> string option \<times> log_entry list" where
  "readArea p =
     (case readArea_try p of
        Inr v \<Rightarrow> (Some v, [Log Debug ''Read range.'' None])
      | Inl error \<Rightarrow> (None, [Log Warn ''Could not read spell area.'' (Some error)]))"

definition readTarget_try :: "page \<Rightarrow> error + string" where
  \<open>readTarget_try p = firstText p ''//strong[text()="Target:"]/following-sibling::text()[1]''\<close>

definition readTarget :: "page \<Rightarrow> string option \<times> log_entry list" where
  "readTarget p =
     (case readTarget_try p of
        Inr v \<Rightarrow> (Some v, [Log Debug ''Read target.'' None])
      | Inl error \<Rightarrow> (None, [Log Warn ''Could not read spell target.'' (Some error)]))"

definition readEffect_try :: "page \<Rightarrow> error + string" where
  \<open>readEffect_try p = firstText p ''//strong[text()="Effect:"]/following-sibling::text()[1]''\<close>

definition readEffect :: "page \<Rightarrow> string option \<times> log_entry list" where
  "readEffect p =
     (case readEffect_try p of
        Inr v \<Rightarrow> (Some v, [Log Debug ''Read target.'' None])
      | Inl error \<Rightarrow> (None, [Log Warn ''Could not read spell effect.'' (Some error)]))"

definition readDuration_try :: "page \<Rightarrow> error + string" where
  \<open>readDuration_try p = firstText p ''//strong[text()="Duration:"]/following-sibling::text()[1]''\<close>

definition readDuration :: "page \<Rightarrow> string option \<times> log_entry list" where
  "readDuration p =
     (case readDuration_try p of
        Inr v \<Rightarrow> (Some v, [Log Debug ''Read duration.'' None])
      | Inl error \<Rightarrow> (None, [Log Warn ''Could not read spell duration.'' (Some error)]))"

definition readSavingThrow_try :: "page \<Rightarrow> error + string" where
  \<open>readSavingThrow_try p = firstText p ''//strong[text()="Saving Throw:"]/following-sibling::text()[1]''\<close>

definition readSavingThrow :: "page \<Rightarrow> string option \<times> log_entry list" where
  "readSavingThrow p =
     (case readSavingThrow_try p of
        Inr v \<Rightarrow> (Some v, [Log Debug ''Read savingThrow.'' None])
      | Inl error \<Rightarrow> (None, [Log Warn ''Could not read spell savingThrow.'' (Some error)]))"

definition readSpellResistance_try :: "page \<Rightarrow> error + string" where
  \<open>readSpellResistance_try p = firstText p ''//strong[text()="Spell Resistance:"]/following-sibling::text()[1]''\<close>

definition readSpellResistance :: "page \<Rightarrow> string option \<times> log_entry list" where
  "readSpellResistance p =
     (case readSpellResistance_try p of
        Inr v \<Rightarrow> (Some v, [Log Debug ''Read spellResistance.'' None])
      | Inl error \<Rightarrow> (None, [Log Warn ''Could not read spell spellResistance.'' (Some error)]))"

definition readDescription_try :: "page \<Rightarrow> error + string" where
  "readDescription_try p =
     eval_first (queryOne p) ''#content .nice-textile'' (\<lambda>e. Inr (trim (innerHTML e)))"

definition readDescription :: "page \<Rightarrow> string option \<times> log_entry list" where
  "readDescription p =
     (case readDescription_try p of
        Inr v \<Rightarrow> (Some v, [Log Debug ''Read description.'' None])
      | Inl error \<Rightarrow> (None, [Log Warn ''Could not read spell description.'' (Some error)]))"

section \<open>The detail fetcher\<close>

text \<open>
  The object literal of \<^verbatim>\<open>crawlSpellPage\<close>, evaluated field by field in the order it is
  written: the \<^verbatim>\<open>id\<close> is group 1 of the match on the url (a failed match is \<^verbatim>\<open>null\<close>, and
  \<^verbatim>\<open>null[1]\<close> raises), then \<open>readName\<close>, then the guarded extractors. The result is
  the spell and the lines logged, the last of them the \<^verbatim>\<open>Exiting crawlSpellPage\<close> line.
  The record names its fields in the order of the type \<^verbatim>\<open>Spell\<close>; the log keeps the order
  in which the literal evaluates them.
\<close>

definition readSpell :: "string \<Rightarrow> page \<Rightarrow> error + (spell \<times> log_entry list)" where
  \<open>readSpell url p =
     (case exec_id url of
        None \<Rightarrow> Inl TypeError
      | Some r1 \<Rightarrow>
         (case readName p of
            Inl error \<Rightarrow> Inl error
          | Inr (nm, l0) \<Rightarrow>
              Inr (\<lparr>spell_id = r1,
                    name = nm,
                    source = fst (readSource p),
                    description = fst (readDescription p),
                    classLevels = fst (readClassLevels p),
                    domainLevels = fst (readDomainLevels p),
                    schools = fst (readSchools p),
                    subschools = fst (readSubschools p),
                    descriptors = fst (readDescriptors p),
                    components = fst (readComponents p),
                    castingTime = fst (readCastingTime p),
                    spell_range = fst (readRange p),
                    area = fst (readArea p),
                    target = fst (readTarget p),
                    effect = fst (readEffect p),
                    duration = fst (readDuration p),
                    savingThrow = fst (readSavingThrow p),
                    spellResistance = fst (readSpellResistance p)\<rparr>,
                   l0 @ snd (readSource p) @ snd (readSchools p) @ snd (readSubschools p) @
                   snd (readDescriptors p) @ snd (readClassLevels p) @ snd (readDomainLevels p) @
                   snd (readComponents p) @ snd (readCastingTime p) @ snd (readRange p) @
                   snd (readArea p) @ snd (readTarget p) @ snd (readEffect p) @
                   snd (readDuration p) @ snd (readSavingThrow p) @ snd (readSpellResistance p) @
                   snd (readDescription p) @
                   [Log Debug (''Exiting crawlSpellPage("'' @ url @ '')'') None])))\<close>

text \<open>
  What the browser does during one call of \<^verbatim>\<open>crawlSpellPage\<close>: whether
  \<^verbatim>\<open>browser.newPage()\<close> raises, what the \<open>k\<close>-th \<^verbatim>\<open>page.goto(url)\<close> of the call does (it
  raises, or the page shows a document), and whether \<^verbatim>\<open>page.close()\<close> raises.
\<close>

record fetch_world =
  fetch_newPage :: "error option"
  fetch_goto :: "nat \<Rightarrow> error + page"
  fetch_close :: "error option"

text \<open>The body of the inner \<^verbatim>\<open>try\<close>: the \<open>k\<close>-th load of the call, then the extraction.\<close>

definition attempt :: "fetch_world \<Rightarrow> string \<Rightarrow> nat \<Rightarrow> error + (spell \<times> log_entry list)" where
  "attempt w url k =
     (case fetch_goto w k of
        Inl error \<Rightarrow> Inl error
      | Inr p \<Rightarrow> readSpell url p)"

text \<open>
  The loop \<^verbatim>\<open>while (retryCount-- > 0)\<close> of \<^verbatim>\<open>crawlSpellPage\<close>. The test reads
  \<open>retryCount\<close> and then decrements it, so the body and the \<^verbatim>\<open>catch\<close> see
  \<open>retryCount - 1\<close>. \<open>k\<close> counts the loads made so far. The result is what the loop
  returns or raises, the number of loads made, and the lines logged; \<open>Inr None\<close> is
  the \<^verbatim>\<open>undefined\<close> of a loop that ends without \<^verbatim>\<open>return\<close>.
\<close>

function fetchLoop :: "fetch_world \<Rightarrow> string \<Rightarrow> int \<Rightarrow> nat \<Rightarrow> log_entry list \<Rightarrow> (error + spell option) \<times> nat \<times> log_entry list" where
  "fetchLoop w url retryCount k lg =
     (if retryCount > 0 then
        (case attempt w url k of
           Inr (sp, l1) \<Rightarrow> (Inr (Some sp), Suc k, lg @ l1)
         | Inl error \<Rightarrow>
             if retryCount - 1 \<le> 0
             then (Inl error, Suc k, lg @ [Log Warn ''Failed to read spell.'' (Some error)])
             else fetchLoop w url (retryCount - 1) (Suc k)
                    (lg @ [Log Verbose ''Failed to read spell page, retrying.'' (Some error)]))
      else (Inr None, k, lg))"
  by pat_completeness auto
termination
  by (relation "measure (\<lambda>(w, url, retryCount, k, lg). nat retryCount)") auto

text \<open>
  \<^verbatim>\<open>crawlSpellPage(browser, url)\<close>: the page is opened outside the \<^verbatim>\<open>try\<close>, so a failure
  to open it raises at once; \<^verbatim>\<open>finally\<close> awaits \<^verbatim>\<open>page.close()\<close>, and an error of the
  close replaces the outcome of the loop.
\<close>

definition crawlSpellPage :: "fetch_world \<Rightarrow> string \<Rightarrow> (error + spell option) \<times> nat \<times> log_entry list" where
  "crawlSpellPage w url =
     (case fetch_newPage w of
        Some error \<Rightarrow> (Inl error, 0, [Log Verbose ''Reading spell'' None])
      | None \<Rightarrow>
          (case fetchLoop w url RETRY_LIMIT 0 [Log Verbose ''Reading spell'' None] of
             (r, n, lg) \<Rightarrow>
               (case fetch_close w of
                  Some error \<Rightarrow> (Inl error, n, lg)
                | None \<Rightarrow> (r, n, lg))))"

section \<open>The bounded task runner\<close>

text \<open>
  A reference is the \<^verbatim>\<open>href\<close> the paginator read: a string, or \<^verbatim>\<open>null\<close> when the link has
  no such attribute. The template literal of the url renders \<^verbatim>\<open>null\<close> as the text \<open>null\<close>.
\<close>

definition spellPageUrl :: "string option \<Rightarrow> string" where
  "spellPageUrl spellUrl = DNDTOOLS_URL_BASE @ (case spellUrl of None \<Rightarrow> ''null'' | Some u \<Rightarrow> u)"

text \<open>
  The iteratee that \<^verbatim>\<open>crawlSpellPages\<close> hands to \<^verbatim>\<open>eachLimit\<close>. The callback is any
  function of the caller: it gets the value \<^verbatim>\<open>crawlSpellPage\<close> returned and the
  caller's state, and gives the new state, the lines it logs and the error it raises,
  if any. The callback runs inside the \<^verbatim>\<open>try\<close>, so an error of the callback is caught
  and retried like an error of the fetch. \<open>w j\<close> is what the browser does during the
  \<open>j\<close>-th call of \<^verbatim>\<open>crawlSpellPage\<close> for this item. The loop returns \<open>retryCount\<close> and
  \<open>error\<close> as they stand after it, the number of calls made, the state and the log.
\<close>

function itemLoop :: "(spell option \<Rightarrow> 's \<Rightarrow> 's \<times> log_entry list \<times> error option) \<Rightarrow> (nat \<Rightarrow> fetch_world) \<Rightarrow> string option \<Rightarrow> int \<Rightarrow> error option \<Rightarrow> nat \<Rightarrow> 's \<Rightarrow> log_entry list \<Rightarrow> int \<times> error option \<times> nat \<times> 's \<times> log_entry list" where
  "itemLoop spellCallback w spellUrl retryCount error j st lg =
     (if retryCount > 0 then
        (case crawlSpellPage (w j) (spellPageUrl spellUrl) of
           (Inr sp, n, l1) \<Rightarrow>
             (case spellCallback sp st of
                (st', l2, None) \<Rightarrow> (retryCount - 1, error, Suc j, st', lg @ l1 @ l2)
              | (st', l2, Some err) \<Rightarrow>
                  itemLoop spellCallback w spellUrl (retryCount - 1) (Some err) (Suc j) st'
                    (lg @ l1 @ l2 @ [Log Warn ''Error when crawling spell page, retrying.'' (Some err)]))
         | (Inl err, n, l1) \<Rightarrow>
             itemLoop spellCallback w spellUrl (retryCount - 1) (Some err) (Suc j) st
               (lg @ l1 @ [Log Warn ''Error when crawling spell page, retrying.'' (Some err)]))
      else (retryCount - 1, error, j, st, lg))"
  by pat_completeness auto
termination
  by (relation "measure (\<lambda>(cb, w, spellUrl, retryCount, error, j, st, lg). nat retryCount)") auto

text \<open>
  After the loop the iteratee calls \<^verbatim>\<open>done()\<close> when \<open>retryCount > 0\<close> and
  \<^verbatim>\<open>done(error)\<close> otherwise. The first component of the result is the argument of
  \<^verbatim>\<open>done\<close>: \<open>None\<close> for no argument or \<^verbatim>\<open>null\<close>, which \<^verbatim>\<open>eachLimit\<close> takes as success.
\<close>

definition iteratee :: "(spell option \<Rightarrow> 's \<Rightarrow> 's \<times> log_entry list \<times> error option) \<Rightarrow> (nat \<Rightarrow> fetch_world) \<Rightarrow> string option \<Rightarrow> 's \<Rightarrow> error option \<times> nat \<times> 's \<times> log_entry list" where
  "iteratee spellCallback w spellUrl st =
     (case itemLoop spellCallback w spellUrl RETRY_LIMIT None 0 st [] of
        (retryCount, error, j, st', lg) \<Rightarrow>
          (if retryCount > 0 then None else error, j, st', lg))"

text \<open>
  \<^verbatim>\<open>eachLimit\<close> belongs to the async library, outside the repository. The model runs the
  items one after the other in the order of the list, which is the schedule of
  \<^verbatim>\<open>eachLimit\<close> with limit 1; the interleaving of up to \<open>CONCURRENCY\<close> items is not
  modelled. At the first item that reports an error no further item is started and
  the final callback gets the error. The iteratee is taken to receive \<^verbatim>\<open>done\<close> as its
  second argument, which is what \<^verbatim>\<open>eachLimit\<close> does for a function that is not a native
  \<^verbatim>\<open>async\<close> function. \<open>W i\<close> is the browser's behaviour for item \<open>i\<close>.
\<close>

fun eachItem :: "(spell option \<Rightarrow> 's \<Rightarrow> 's \<times> log_entry list \<times> error option) \<Rightarrow> (nat \<Rightarrow> nat \<Rightarrow> fetch_world) \<Rightarrow> nat \<Rightarrow> string option list \<Rightarrow> 's \<Rightarrow> error option \<times> 's \<times> log_entry list" where
  "eachItem spellCallback W i [] st = (None, st, [])"
| "eachItem spellCallback W i (spellUrl # rest) st =
     (case iteratee spellCallback (W i) spellUrl st of
        (Some err, j, st', lg) \<Rightarrow> (Some err, st', lg)
      | (None, j, st', lg) \<Rightarrow>
          (case eachItem spellCallback W (Suc i) rest st' of
             (r, st'', lg') \<Rightarrow> (r, st'', lg @ lg')))"

text \<open>
  \<^verbatim>\<open>crawlSpellPages\<close>: the promise resolves (\<open>None\<close>) or rejects with the error the final
  callback got.
\<close>

definition crawlSpellPages :: "(nat \<Rightarrow> nat \<Rightarrow> fetch_world) \<Rightarrow> string option list \<Rightarrow> (spell option \<Rightarrow> 's \<Rightarrow> 's \<times> log_entry list \<times> error option) \<Rightarrow> 's \<Rightarrow> error option \<times> 's \<times> log_entry list" where
  "crawlSpellPages W spellUrls spellCallback st = eachItem spellCallback W 0 spellUrls st"

section \<open>The list paginator\<close>

text \<open>Decimal digits of a number, for the template literal of a log line.\<close>

fun show_nat :: "nat \<Rightarrow> string" where
  "show_nat n =
     (if n < 10 then [char_of (48 + n)]
      else show_nat (n div 10) @ [char_of (48 + n mod 10)])"

text \<open>
  The \<^verbatim>\<open>try\<close> block of one row in \<^verbatim>\<open>crawlSpellListPage\<close>: \<open>Inr (Some spellUrl)\<close> when the
  row pushes a reference, \<open>Inr None\<close> when it pushes none (a header row, or a rulebook
  outside \<open>RULEBOOKS\<close>), \<open>Inl\<close> when a query of the row raises.
\<close>

definition crawlRow :: "element \<Rightarrow> error + string option option" where
  "crawlRow row =
     (case elem_queryOne row ''th'' of
        Inl e \<Rightarrow> Inl e
      | Inr (Some th) \<Rightarrow> Inr None
      | Inr None \<Rightarrow>
          (case eval_first (elem_queryOne row) ''td:nth-child(4) a'' (\<lambda>e. Inr (textContent e)) of
             Inl e \<Rightarrow> Inl e
           | Inr rb \<Rightarrow>
               if rb \<in> set RULEBOOKS
               then (case eval_first (elem_queryOne row) ''td:nth-child(1) a'' (\<lambda>e. Inr (getAttribute e ''href'')) of
                       Inl e \<Rightarrow> Inl e
                     | Inr spellUrl \<Rightarrow> Inr (Some spellUrl))
               else Inr None))"

text \<open>The \<^verbatim>\<open>for\<close> loop over the rows, with its \<^verbatim>\<open>catch\<close>.\<close>

fun rowsLoop :: "element list \<Rightarrow> string option list \<Rightarrow> log_entry list \<Rightarrow> string option list \<times> log_entry list" where
  "rowsLoop [] spellUrls lg = (spellUrls, lg)"
| "rowsLoop (row # rows) spellUrls lg =
     (case crawlRow row of
        Inl error \<Rightarrow> rowsLoop rows spellUrls (lg @ [Log Warn ''Error parsing spell table row.'' (Some error)])
      | Inr None \<Rightarrow> rowsLoop rows spellUrls lg
      | Inr (Some spellUrl) \<Rightarrow> rowsLoop rows (spellUrls @ [spellUrl]) lg)"

definition crawlSpellListPage :: "page \<Rightarrow> (error + string option list) \<times> log_entry list" where
  "crawlSpellListPage p =
     (case queryAll p ''table.common tr'' of
        Inl error \<Rightarrow> (Inl error, [Log Debug ''Entering crawlSpellListPage()'' None])
      | Inr rows \<Rightarrow>
          (case rowsLoop rows [] [Log Debug ''Entering crawlSpellListPage()'' None] of
             (spellUrls, lg) \<Rightarrow>
               (Inr spellUrls,
                lg @ [Log Debug (''crawlSpellListPage() found '' @ show_nat (length spellUrls) @ '' spells.'') None])))"

text \<open>
  What the browser does during \<^verbatim>\<open>crawlSpellListPages\<close>: whether \<^verbatim>\<open>browser.newPage()\<close> and
  the first \<^verbatim>\<open>page.goto\<close> raise, the document the tab shows after \<open>i\<close> navigations, and
  on that document what the \<open>j\<close>-th try of
  \<^verbatim>\<open>Promise.all([page.waitForNavigation(), nextBtn.click()])\<close> does: it raises, or the
  navigation is made (\<open>None\<close>).
\<close>

record list_world =
  list_newPage :: "error option"
  list_goto :: "error option"
  list_pages :: "nat \<Rightarrow> page"
  list_navigate :: "nat \<Rightarrow> nat \<Rightarrow> error option"

text \<open>
  The inner \<^verbatim>\<open>while (true)\<close>: it is left only by the \<^verbatim>\<open>break\<close> after a navigation that did
  not raise. The result is the number of tries made and the log; the loop that never
  ends has the value \<open>None\<close>.
\<close>

partial_function (option) navigateLoop :: "(nat \<Rightarrow> error option) \<Rightarrow> nat \<Rightarrow> log_entry list \<Rightarrow> (nat \<times> log_entry list) option" where
  "navigateLoop nav j lg =
     (case nav j of
        None \<Rightarrow> Some (Suc j, lg)
      | Some error \<Rightarrow>
          navigateLoop nav (Suc j) (lg @ [Log Warn ''Navigation to next page failed, retrying.'' (Some error)]))"

declare navigateLoop.simps [code]

text \<open>The outer \<^verbatim>\<open>while (true)\<close> over the pages of the index.\<close>

partial_function (option) pagesLoop :: "list_world \<Rightarrow> nat \<Rightarrow> string option list \<Rightarrow> log_entry list \<Rightarrow> ((error + string option list) \<times> log_entry list) option" where
  "pagesLoop w i spellUrls lg =
     (case crawlSpellListPage (list_pages w i) of
        (Inl error, l1) \<Rightarrow> Some (Inl error, lg @ l1)
      | (Inr newSpellUrls, l1) \<Rightarrow>
          (case queryOne (list_pages w i) ''a.next'' of
             Inl error \<Rightarrow> Some (Inl error, lg @ l1)
           | Inr None \<Rightarrow>
               Some (Inr (spellUrls @ newSpellUrls),
                     lg @ l1 @ [Log Verbose ''No more spells pages, closing tab.'' None])
           | Inr (Some nextBtn) \<Rightarrow>
               (case navigateLoop (list_navigate w i) 0 [Log Verbose ''Navigating to next spells page.'' None] of
                  None \<Rightarrow> None
                | Some (n, l2) \<Rightarrow> pagesLoop w (Suc i) (spellUrls @ newSpellUrls) (lg @ l1 @ l2))))"

declare pagesLoop.simps [code]

text \<open>
  \<^verbatim>\<open>crawlSpellListPages\<close>. The \<^verbatim>\<open>page.close()\<close> of its \<^verbatim>\<open>finally\<close> is not awaited, so it
  cannot change the outcome.
\<close>

definition crawlSpellListPages :: "list_world \<Rightarrow> ((error + string option list) \<times> log_entry list) option" where
  "crawlSpellListPages w =
     (case list_newPage w of
        Some error \<Rightarrow> Some (Inl error, [])
      | None \<Rightarrow>
          (case list_goto w of
             Some error \<Rightarrow> Some (Inl error, [])
           | None \<Rightarrow> pagesLoop w 0 [] []))"

section \<open>The pipeline driver\<close>

text \<open>
  The state the callback of the driver closes over, and the callback: it reads
  \<^verbatim>\<open>s.name\<close> (which raises on \<^verbatim>\<open>undefined\<close>), counts, logs and pushes.
\<close>

record main_state =
  spells :: "spell list"
  spellCounter :: nat

definition mainCallback :: "spell option \<Rightarrow> main_state \<Rightarrow> main_state \<times> log_entry list \<times> error option" where
  "mainCallback s st =
     (case s of
        None \<Rightarrow> (st, [], Some TypeError)
      | Some sp \<Rightarrow>
          (\<lparr>spells = spells st @ [sp], spellCounter = Suc (spellCounter st)\<rparr>,
           [Log Info ''Read spell.'' None], None))"

record main_world =
  main_launch :: "error option"
  main_list :: list_world
  main_items :: "nat \<Rightarrow> nat \<Rightarrow> fetch_world"
  main_close :: "error option"

text \<open>
  The inner \<^verbatim>\<open>try\<close> of the driver after the paginator has returned or raised. The
  first component is what is written to standard output: one element for each
  \<^verbatim>\<open>process.stdout.write\<close>, holding the list that \<^verbatim>\<open>JSON.stringify\<close> serialises.
  \<open>Fatal\<close> is the level of \<^verbatim>\<open>logger.error\<close>.
\<close>

definition crawlAndPrint :: "main_world \<Rightarrow> error + string option list \<Rightarrow> spell list list \<times> log_entry list" where
  "crawlAndPrint w r =
     (case r of
        Inl error \<Rightarrow> ([], [Log Fatal ''Unexpected error!'' (Some error)])
      | Inr spellUrls \<Rightarrow>
          if length spellUrls > 0
          then (case crawlSpellPages (main_items w) spellUrls mainCallback \<lparr>spells = [], spellCounter = 0\<rparr> of
                  (None, st, l2) \<Rightarrow> ([spells st], Log Info ''Crawling spells...'' None # l2)
                | (Some error, st, l2) \<Rightarrow>
                    ([], Log Info ''Crawling spells...'' None # l2 @ [Log Fatal ''Unexpected error!'' (Some error)]))
          else ([], [Log Info ''No spells found!'' None]))"

text \<open>
  The driver: what it writes to standard output and what it logs; \<open>None\<close> when the
  paginator never returns.
\<close>

definition main :: "main_world \<Rightarrow> (spell list list \<times> log_entry list) option" where
  "main w =
     (case main_launch w of
        Some error \<Rightarrow> Some ([], [Log Fatal ''Could not start browser.'' (Some error)])
      | None \<Rightarrow>
          (case crawlSpellListPages (main_list w) of
             None \<Rightarrow> None
           | Some (r, l1) \<Rightarrow>
               (case crawlAndPrint w r of
                  (out, l3) \<Rightarrow>
                    (case main_close w of
                       None \<Rightarrow> Some (out, Log Info ''Building list of spells...'' None # l1 @ l3)
                     | Some error \<Rightarrow>
                         Some (out, Log Info ''Building list of spells...'' None # l1 @ l3 @
                                    [Log Fatal ''Could not start browser.'' (Some error)])))))"

section \<open>Reference definitions for the statements\<close>


text \<open>
  The paginator as the specification words it: the reference of a row that is not a
  header (no \<^verbatim>\<open>th\<close>), whose origin column (the link of the fourth cell) names a rulebook
  of the allow-list, is the \<^verbatim>\<open>href\<close> of the link of its first cell; every other row,
  and every row one of whose queries raises, has none.
\<close>

definition spec_rowRef :: "element \<Rightarrow> string option option" where
  "spec_rowRef row =
     (case (elem_queryOne row ''th'', elem_queryOne row ''td:nth-child(4) a'', elem_queryOne row ''td:nth-child(1) a'') of
        (Inr None, Inr (Some origin), Inr (Some link)) \<Rightarrow>
          if textContent origin \<in> set RULEBOOKS then Some (getAttribute link ''href'') else None
      | _ \<Rightarrow> None)"

text \<open>The warning a row leaves in the log: one line when its \<^verbatim>\<open>try\<close> block raises.\<close>

definition rowWarning :: "element \<Rightarrow> log_entry list" where
  "rowWarning row =
     (case crawlRow row of
        Inl error \<Rightarrow> [Log Warn ''Error parsing spell table row.'' (Some error)]
      | Inr _ \<Rightarrow> [])"

section \<open>Sample documents and browsers\<close>

text \<open>
  Concrete inputs on which the theorems below are instantiated. \<open>leaf\<close> is an element
  with a text and the text of its next sibling, without attributes or descendants.
\<close>

definition sampleRef :: string where
  "sampleRef = ''/spells/players-handbook-v35--6/fireball--2438/''"

definition sampleUrl :: string where
  "sampleUrl = ''https://dndtools.net/spells/players-handbook-v35--6/fireball--2438/''"

definition netError :: error where
  "netError = Error ''net::ERR_CONNECTION_RESET''"

definition protocolError :: error where
  "protocolError = Error ''Protocol error (Runtime.callFunctionOn): Target closed.''"

definition leaf :: "string \<Rightarrow> string option \<Rightarrow> element" where
  "leaf t sibling = Element t t (\<lambda>a. None) sibling (\<lambda>s. Inr None)"

text \<open>A spell page with a heading and two class links.\<close>

definition samplePage :: page where
  \<open>samplePage =
     \<lparr>queryOne = (\<lambda>s. if s = ''#content h2'' then Inr (Some (leaf '' Fireball '' None)) else Inr None),
      queryAll = (\<lambda>s. if s = ''#content a[href^="/classes/"]''
                       then Inr [leaf ''Sorcerer 3'' None, leaf ''Wizard 3'' None] else Inr []),
      queryByTextPath = (\<lambda>s. Inr [])\<rparr>\<close>

definition sampleSpell :: spell where
  "sampleSpell =
     \<lparr>spell_id = ''2438'', name = ''Fireball'', source = None, description = None,
      classLevels = [Some \<lparr>class_name = ''Sorcerer'', level = Num 3\<rparr>,
                     Some \<lparr>class_name = ''Wizard'', level = Num 3\<rparr>],
      domainLevels = [], schools = [], subschools = [], descriptors = [], components = [],
      castingTime = None, spell_range = None, area = None, target = None, effect = None,
      duration = None, savingThrow = None, spellResistance = None\<rparr>"

text \<open>A page on which every query but the one for the heading raises.\<close>

definition brokenPage :: page where
  "brokenPage =
     \<lparr>queryOne = (\<lambda>s. if s = ''#content h2'' then Inr (Some (leaf ''Fireball'' None)) else Inl protocolError),
      queryAll = (\<lambda>s. Inl protocolError),
      queryByTextPath = (\<lambda>s. Inl protocolError)\<rparr>"

definition brokenSpell :: spell where
  "brokenSpell = sampleSpell\<lparr>classLevels := []\<rparr>"

text \<open>A page without a heading.\<close>

definition namelessPage :: page where
  "namelessPage = \<lparr>queryOne = (\<lambda>s. Inr None), queryAll = (\<lambda>s. Inr []), queryByTextPath = (\<lambda>s. Inr [])\<rparr>"




text \<open>
  Browsers for one call of \<open>crawlSpellPage\<close>: every load shows \<open>samplePage\<close>; the first
  two loads raise; every load raises; every load shows \<open>namelessPage\<close>.
\<close>

definition okFetch :: fetch_world where
  "okFetch = \<lparr>fetch_newPage = None, fetch_goto = (\<lambda>k. Inr samplePage), fetch_close = None\<rparr>"

definition flakyFetch :: fetch_world where
  "flakyFetch = \<lparr>fetch_newPage = None,
                 fetch_goto = (\<lambda>k. if k < 2 then Inl netError else Inr samplePage),
                 fetch_close = None\<rparr>"

definition deadFetch :: fetch_world where
  "deadFetch = \<lparr>fetch_newPage = None, fetch_goto = (\<lambda>k. Inl netError), fetch_close = None\<rparr>"

definition namelessFetch :: fetch_world where
  "namelessFetch = \<lparr>fetch_newPage = None, fetch_goto = (\<lambda>k. Inr namelessPage), fetch_close = None\<rparr>"

text \<open>
  Browsers whose \<^verbatim>\<open>page.close()\<close> raises, after loads that succeed and after loads that
  raise; and a browser that cannot open a page.
\<close>

definition okCloseFailFetch :: fetch_world where
  "okCloseFailFetch = okFetch\<lparr>fetch_close := Some protocolError\<rparr>"

definition deadCloseFailFetch :: fetch_world where
  "deadCloseFailFetch = deadFetch\<lparr>fetch_close := Some protocolError\<rparr>"

definition noPageFetch :: fetch_world where
  "noPageFetch = okFetch\<lparr>fetch_newPage := Some protocolError\<rparr>"

text \<open>An item whose first nine calls of \<open>crawlSpellPage\<close> raise and whose tenth returns.\<close>

definition lastTryItem :: "nat \<Rightarrow> fetch_world" where
  "lastTryItem j = (if j < 9 then deadFetch else okFetch)"

text \<open>
  An index of two pages. The rows of the first: a header, three rows of the allow-list,
  two rows of other rulebooks and a row whose queries raise; the second page has a
  header and one row of the allow-list and no next-page control. Each navigation
  raises twice before it is made.
\<close>

definition link :: "string \<Rightarrow> string \<Rightarrow> element" where
  "link t href = Element t t (\<lambda>a. if a = ''href'' then Some href else None) None (\<lambda>s. Inr None)"

definition headerRow :: element where
  "headerRow = Element [] [] (\<lambda>a. None) None (\<lambda>s. if s = ''th'' then Inr (Some (leaf ''Name'' None)) else Inr None)"

definition dataRow :: "string \<Rightarrow> string \<Rightarrow> element" where
  "dataRow book href =
     Element [] [] (\<lambda>a. None) None
       (\<lambda>s. if s = ''td:nth-child(4) a'' then Inr (Some (link book ''/rulebooks/''))
            else if s = ''td:nth-child(1) a'' then Inr (Some (link ''spell'' href))
            else Inr None)"

definition staleRow :: element where
  "staleRow = Element [] [] (\<lambda>a. None) None (\<lambda>s. Inl protocolError)"

definition listPage :: "element list \<Rightarrow> bool \<Rightarrow> page" where
  "listPage rows hasNext =
     \<lparr>queryOne = (\<lambda>s. if s = ''a.next'' \<and> hasNext then Inr (Some (leaf ''next'' None)) else Inr None),
      queryAll = (\<lambda>s. if s = ''table.common tr'' then Inr rows else Inr []),
      queryByTextPath = (\<lambda>s. Inr [])\<rparr>"

definition sampleRows :: "nat \<Rightarrow> element list" where
  "sampleRows i =
     (if i = 0
      then [headerRow,
            dataRow ''Player's Handbook v.3.5'' ''/spells/a--1/'',
            dataRow ''Complete Arcane'' ''/spells/b--2/'',
            staleRow,
            dataRow ''Spell Compendium'' ''/spells/c--3/'',
            dataRow ''Dragon Magic'' ''/spells/d--4/'',
            dataRow ''Player's Handbook v.3.5'' ''/spells/e--5/'']
      else [headerRow, dataRow ''Spell Compendium'' ''/spells/f--6/''])"

definition sampleListWorld :: list_world where
  "sampleListWorld =
     \<lparr>list_newPage = None, list_goto = None,
      list_pages = (\<lambda>i. listPage (sampleRows i) (i < 1)),
      list_navigate = (\<lambda>i j. if j < 2 then Some netError else None)\<rparr>"

text \<open>The same index behind a browser whose first \<^verbatim>\<open>page.goto\<close> raises.\<close>

definition noIndexWorld :: list_world where
  "noIndexWorld = sampleListWorld\<lparr>list_goto := Some netError\<rparr>"

text \<open>The same index behind a browser in which no navigation is ever made.\<close>

definition stuckListWorld :: list_world where
  "stuckListWorld = sampleListWorld\<lparr>list_navigate := (\<lambda>i j. Some netError)\<rparr>"

text \<open>The same index behind a browser whose navigations raise another error.\<close>

definition protocolListWorld :: list_world where
  "protocolListWorld =
     sampleListWorld\<lparr>list_navigate := (\<lambda>i j. if j < 2 then Some protocolError else None)\<rparr>"

definition sampleRefs :: "string option list" where
  "sampleRefs = [Some ''/spells/a--1/'', Some ''/spells/c--3/'', Some ''/spells/e--5/'', Some ''/spells/f--6/'']"

definition sampleOutput :: "spell list" where
  "sampleOutput = map (\<lambda>i. sampleSpell\<lparr>spell_id := i\<rparr>) [''1'', ''3'', ''5'', ''6'']"

text \<open>
  Three runs of the driver over that index: every item is fetched at the first try;
  the second item never loads; the browser does not start.
\<close>

definition sampleMainWorld :: main_world where
  "sampleMainWorld =
     \<lparr>main_launch = None, main_list = sampleListWorld, main_items = (\<lambda>i j. okFetch), main_close = None\<rparr>"

definition failingMainWorld :: main_world where
  "failingMainWorld =
     \<lparr>main_launch = None, main_list = sampleListWorld,
      main_items = (\<lambda>i j. if i = 1 then deadFetch else okFetch), main_close = None\<rparr>"

definition noBrowserWorld :: main_world where
  "noBrowserWorld =
     \<lparr>main_launch = Some netError, main_list = sampleListWorld, main_items = (\<lambda>i j. okFetch), main_close = None\<rparr>"

section \<open>The detail fetcher: attempts and retries\<close>

declare fetchLoop.simps [simp del]
declare itemLoop.simps [simp del]
declare bitLength.simps [simp del]
declare show_nat.simps [simp del]

text \<open>When every attempt from \<open>k\<close> on raises, the loop makes all the loads it has left.\<close>

lemma fetchLoop_exhaust:
  "0 < rc \<Longrightarrow> (\<forall>i. k \<le> i \<and> i < k + nat rc \<longrightarrow> attempt w url i = Inl (e i)) \<Longrightarrow>
   \<exists>lg'. fetchLoop w url rc k lg = (Inl (e (k + nat rc - 1)), k + nat rc, lg')"
proof (induction w url rc k lg rule: fetchLoop.induct)
  case (1 w url retryCount k lg)
  have a: "attempt w url k = Inl (e k)" using 1(2,3) by simp
  show ?case
  proof (cases "retryCount - 1 \<le> 0")
    case True
    then have "retryCount = 1" using 1(2) by simp
    then show ?thesis using a by (subst fetchLoop.simps) simp
  next
    case False
    have s: "k + nat retryCount = Suc k + nat (retryCount - 1)" using False by simp
    have "\<exists>lg'. fetchLoop w url (retryCount - 1) (Suc k)
             (lg @ [Log Verbose ''Failed to read spell page, retrying.'' (Some (e k))]) =
       (Inl (e (Suc k + nat (retryCount - 1) - 1)), Suc k + nat (retryCount - 1), lg')"
      apply (rule 1(1)[OF 1(2) a False])
      using False 1(3) s by auto
    then show ?thesis using a False 1(2) s by (simp add: fetchLoop.simps[of w url retryCount k lg])
  qed
qed

text \<open>When the attempts before \<open>k + m\<close> raise and that one returns, the loop returns there.\<close>

lemma fetchLoop_success:
  "m < nat rc \<Longrightarrow> (\<forall>i. k \<le> i \<and> i < k + m \<longrightarrow> (\<exists>e. attempt w url i = Inl e)) \<Longrightarrow>
   attempt w url (k + m) = Inr (sp, l1) \<Longrightarrow>
   \<exists>lg'. fetchLoop w url rc k lg = (Inr (Some sp), Suc (k + m), lg')"
proof (induction m arbitrary: rc k lg)
  case 0
  then show ?case by (simp add: fetchLoop.simps[of w url rc k lg])
next
  case (Suc m)
  from Suc.prems(2) obtain e where a: "attempt w url k = Inl e" by force
  have rc: "\<not> rc - 1 \<le> 0" "0 < rc" using Suc.prems(1) by auto
  have "\<exists>lg'. fetchLoop w url (rc - 1) (Suc k)
           (lg @ [Log Verbose ''Failed to read spell page, retrying.'' (Some e)]) =
         (Inr (Some sp), Suc (Suc k + m), lg')"
    apply (rule Suc.IH)
    using Suc.prems by auto
  then show ?case using a rc by (simp add: fetchLoop.simps[of w url rc k lg])
qed

text \<open>A spell the loop returns is the spell of one of its attempts.\<close>

lemma fetchLoop_result:
  "fetchLoop w url rc k lg = (Inr (Some sp), n, lg') \<Longrightarrow> \<exists>i l1. attempt w url i = Inr (sp, l1)"
proof (induction w url rc k lg rule: fetchLoop.induct)
  case (1 w url retryCount k lg)
  show ?case
  proof (cases "retryCount > 0")
    case False
    then show ?thesis using 1(2) by (simp add: fetchLoop.simps[of w url retryCount k lg])
  next
    case True
    show ?thesis
    proof (cases "attempt w url k")
      case (Inr a)
      then show ?thesis using 1(2) True
        by (cases a) (auto simp add: fetchLoop.simps[of w url retryCount k lg])
    next
      case (Inl e)
      show ?thesis
      proof (cases "retryCount - 1 \<le> 0")
        case True
        then show ?thesis using 1(2) Inl \<open>retryCount > 0\<close>
          by (simp add: fetchLoop.simps[of w url retryCount k lg])
      next
        case False
        then show ?thesis using 1(1)[OF True Inl False] 1(2) Inl True
          by (simp add: fetchLoop.simps[of w url retryCount k lg])
      qed
    qed
  qed
qed

lemma crawlSpellPage_result:
  assumes "fst (crawlSpellPage w url) = Inr (Some sp)"
  shows "\<exists>i q l1. fetch_goto w i = Inr q \<and> readSpell url q = Inr (sp, l1)"
proof -
  obtain r n lg where f: "fetchLoop w url RETRY_LIMIT 0 [Log Verbose ''Reading spell'' None] = (r, n, lg)"
    by (metis prod_cases3)
  from assms f have "r = Inr (Some sp)"
    by (auto simp: crawlSpellPage_def split: option.splits)
  with f fetchLoop_result obtain i l1 where "attempt w url i = Inr (sp, l1)" by blast
  then show ?thesis by (auto simp: attempt_def split: sum.splits)
qed

text \<open>The sample documents, evaluated.\<close>

lemma sample_spellPageUrl: "spellPageUrl (Some sampleRef) = sampleUrl"
  by code_simp

lemma sample_readSpell: "\<exists>lg. readSpell sampleUrl samplePage = Inr (sampleSpell, lg)"
proof -
  have "map_sum id fst (readSpell sampleUrl samplePage) = Inr sampleSpell" by code_simp
  then show ?thesis by (cases "readSpell sampleUrl samplePage") auto
qed

lemma broken_readSpell: "\<exists>lg. readSpell sampleUrl brokenPage = Inr (brokenSpell, lg)"
proof -
  have "map_sum id fst (readSpell sampleUrl brokenPage) = Inr brokenSpell" by code_simp
  then show ?thesis by (cases "readSpell sampleUrl brokenPage") auto
qed

lemma sample_exec_id: "exec_id sampleUrl = Some ''2438''"
  by code_simp

text \<open>
  Claim C2 as stated fails where \<^verbatim>\<open>page.close()\<close> or \<^verbatim>\<open>browser.newPage()\<close> raises. With
  \<open>okCloseFailFetch\<close> the first attempt loads the document and extracts the spell, yet
  \<open>crawlSpellPage\<close> raises the error of the close instead of returning the record. With
  \<open>deadCloseFailFetch\<close> every load raises \<open>netError\<close>, yet the error raised after the ten
  loads is the error of the close, not the last cause. With \<open>noPageFetch\<close> no load is
  made at all.
\<close>

theorem crawlSpellPage_close_counterexample:
  "map_sum id fst (attempt okCloseFailFetch sampleUrl 0) = Inr sampleSpell \<and>
   fst (crawlSpellPage okCloseFailFetch sampleUrl) = Inl protocolError \<and>
   fst (snd (crawlSpellPage okCloseFailFetch sampleUrl)) = 1 \<and>
   (\<forall>i. fetch_goto deadCloseFailFetch i = Inl netError) \<and>
   fst (crawlSpellPage deadCloseFailFetch sampleUrl) = Inl protocolError \<and>
   fst (snd (crawlSpellPage deadCloseFailFetch sampleUrl)) = 10 \<and>
   fst (crawlSpellPage noPageFetch sampleUrl) = Inl protocolError \<and>
   fst (snd (crawlSpellPage noPageFetch sampleUrl)) = 0"
proof -
  have 1: "map_sum id fst (attempt okCloseFailFetch sampleUrl 0) = Inr sampleSpell"
    by code_simp
  have 2: "fst (crawlSpellPage okCloseFailFetch sampleUrl) = Inl protocolError"
    by code_simp
  have 3: "fst (snd (crawlSpellPage okCloseFailFetch sampleUrl)) = 1"
    by code_simp
  have 4: "\<forall>i. fetch_goto deadCloseFailFetch i = Inl netError"
    by (simp add: deadCloseFailFetch_def deadFetch_def)
  have 5: "fst (crawlSpellPage deadCloseFailFetch sampleUrl) = Inl protocolError"
    by code_simp
  have 6: "fst (snd (crawlSpellPage deadCloseFailFetch sampleUrl)) = 10"
    by code_simp
  have 7: "fst (crawlSpellPage noPageFetch sampleUrl) = Inl protocolError"
    by code_simp
  have 8: "fst (snd (crawlSpellPage noPageFetch sampleUrl)) = 0"
    by code_simp
  from 1 2 3 4 5 6 7 8 show ?thesis by simp
qed

text \<open>
  Claim C2, amended. When \<^verbatim>\<open>browser.newPage()\<close> raises, \<open>crawlSpellPage\<close> raises that error
  and makes no load. When the page opens and the document load raises on every one of
  the \<open>RETRY_LIMIT\<close> attempts, \<open>crawlSpellPage\<close> makes exactly \<open>RETRY_LIMIT\<close> loads and
  raises: the error of the last load when \<^verbatim>\<open>page.close()\<close> returns, the error of the close
  when it raises. When the page opens, the attempts before the \<open>k\<close>-th (counted from 0,
  \<open>k < RETRY_LIMIT\<close>) raise and that attempt loads and extracts a spell, \<open>crawlSpellPage\<close>
  makes exactly \<open>k + 1\<close> loads, and returns this spell when \<^verbatim>\<open>page.close()\<close> returns and
  raises the error of the close when it raises.
\<close>

theorem crawlSpellPage_attempts:
  "(fetch_newPage w = Some e0 \<longrightarrow>
      fst (crawlSpellPage w url) = Inl e0 \<and>
      fst (snd (crawlSpellPage w url)) = 0) \<and>
   (fetch_newPage w = None \<and> (\<forall>i < nat RETRY_LIMIT. fetch_goto w i = Inl (e i)) \<longrightarrow>
      fst (crawlSpellPage w url) =
        (case fetch_close w of None \<Rightarrow> Inl (e (nat RETRY_LIMIT - 1)) | Some ec \<Rightarrow> Inl ec) \<and>
      fst (snd (crawlSpellPage w url)) = nat RETRY_LIMIT) \<and>
   (fetch_newPage w = None \<and> k < nat RETRY_LIMIT \<and>
    (\<forall>i < k. \<exists>err. attempt w url i = Inl err) \<and> attempt w url k = Inr (sp, l1) \<longrightarrow>
      fst (crawlSpellPage w url) =
        (case fetch_close w of None \<Rightarrow> Inr (Some sp) | Some ec \<Rightarrow> Inl ec) \<and>
      fst (snd (crawlSpellPage w url)) = Suc k)"
proof (intro conjI impI)
  assume "fetch_newPage w = Some e0"
  then show "fst (crawlSpellPage w url) = Inl e0" "fst (snd (crawlSpellPage w url)) = 0"
    by (simp_all add: crawlSpellPage_def)
next
  assume h: "fetch_newPage w = None \<and> (\<forall>i < nat RETRY_LIMIT. fetch_goto w i = Inl (e i))"
  then have "\<forall>i. 0 \<le> i \<and> i < 0 + nat RETRY_LIMIT \<longrightarrow> attempt w url i = Inl (e i)"
    by (simp add: attempt_def)
  from fetchLoop_exhaust[OF _ this, of "[Log Verbose ''Reading spell'' None]"]
  obtain lg' where f: "fetchLoop w url RETRY_LIMIT 0 [Log Verbose ''Reading spell'' None] =
      (Inl (e (nat RETRY_LIMIT - 1)), nat RETRY_LIMIT, lg')"
    by (auto simp: RETRY_LIMIT_def)
  show "fst (crawlSpellPage w url) =
      (case fetch_close w of None \<Rightarrow> Inl (e (nat RETRY_LIMIT - 1)) | Some ec \<Rightarrow> Inl ec)"
    using h f by (simp add: crawlSpellPage_def split: option.splits)
  show "fst (snd (crawlSpellPage w url)) = nat RETRY_LIMIT"
    using h f by (simp add: crawlSpellPage_def split: option.splits)
next
  assume h: "fetch_newPage w = None \<and> k < nat RETRY_LIMIT \<and>
             (\<forall>i < k. \<exists>err. attempt w url i = Inl err) \<and> attempt w url k = Inr (sp, l1)"
  from fetchLoop_success[of k RETRY_LIMIT 0 w url sp l1 "[Log Verbose ''Reading spell'' None]"] h
  obtain lg' where f: "fetchLoop w url RETRY_LIMIT 0 [Log Verbose ''Reading spell'' None] =
      (Inr (Some sp), Suc k, lg')"
    by auto
  show "fst (crawlSpellPage w url) =
      (case fetch_close w of None \<Rightarrow> Inr (Some sp) | Some ec \<Rightarrow> Inl ec)"
    using h f by (simp add: crawlSpellPage_def split: option.splits)
  show "fst (snd (crawlSpellPage w url)) = Suc k"
    using h f by (simp add: crawlSpellPage_def split: option.splits)
qed

theorem crawlSpellPage_attempts_witness:
  "fst (crawlSpellPage noPageFetch sampleUrl) = Inl protocolError \<and>
   fst (snd (crawlSpellPage noPageFetch sampleUrl)) = 0 \<and>
   fst (crawlSpellPage deadFetch sampleUrl) = Inl netError \<and>
   fst (snd (crawlSpellPage deadFetch sampleUrl)) = 10 \<and>
   fst (crawlSpellPage deadCloseFailFetch sampleUrl) = Inl protocolError \<and>
   fst (snd (crawlSpellPage deadCloseFailFetch sampleUrl)) = 10 \<and>
   fst (crawlSpellPage flakyFetch sampleUrl) = Inr (Some sampleSpell) \<and>
   fst (snd (crawlSpellPage flakyFetch sampleUrl)) = 3 \<and>
   fst (crawlSpellPage okCloseFailFetch sampleUrl) = Inl protocolError \<and>
   fst (snd (crawlSpellPage okCloseFailFetch sampleUrl)) = 1"
proof -
  have n: "fetch_newPage noPageFetch = Some protocolError"
    by (simp add: noPageFetch_def okFetch_def)
  have d: "fetch_newPage deadFetch = None \<and>
           (\<forall>i < nat RETRY_LIMIT. fetch_goto deadFetch i = Inl ((\<lambda>i. netError) i))"
    "fetch_close deadFetch = None"
    by (simp_all add: deadFetch_def)
  have dc: "fetch_newPage deadCloseFailFetch = None \<and>
            (\<forall>i < nat RETRY_LIMIT. fetch_goto deadCloseFailFetch i = Inl ((\<lambda>i. netError) i))"
    "fetch_close deadCloseFailFetch = Some protocolError"
    by (simp_all add: deadCloseFailFetch_def deadFetch_def)
  obtain l1 where r: "readSpell sampleUrl samplePage = Inr (sampleSpell, l1)"
    using sample_readSpell by blast
  have f: "fetch_newPage flakyFetch = None \<and> 2 < nat RETRY_LIMIT \<and>
           (\<forall>i < 2. \<exists>err. attempt flakyFetch sampleUrl i = Inl err) \<and>
           attempt flakyFetch sampleUrl 2 = Inr (sampleSpell, l1)"
    "fetch_close flakyFetch = None"
    using r by (simp_all add: attempt_def flakyFetch_def RETRY_LIMIT_def)
  have oc: "fetch_newPage okCloseFailFetch = None \<and> 0 < nat RETRY_LIMIT \<and>
            (\<forall>i < 0. \<exists>err. attempt okCloseFailFetch sampleUrl i = Inl err) \<and>
            attempt okCloseFailFetch sampleUrl 0 = Inr (sampleSpell, l1)"
    "fetch_close okCloseFailFetch = Some protocolError"
    using r by (simp_all add: attempt_def okCloseFailFetch_def okFetch_def RETRY_LIMIT_def)
  from crawlSpellPage_attempts[where w = noPageFetch and ?e0.0 = protocolError and url = sampleUrl] n
  have 1: "fst (crawlSpellPage noPageFetch sampleUrl) = Inl protocolError"
    "fst (snd (crawlSpellPage noPageFetch sampleUrl)) = 0"
    by simp_all
  from crawlSpellPage_attempts[where w = deadFetch and e = "\<lambda>i. netError" and url = sampleUrl] d
  have 2: "fst (crawlSpellPage deadFetch sampleUrl) = Inl netError"
    "fst (snd (crawlSpellPage deadFetch sampleUrl)) = 10"
    by (simp_all add: RETRY_LIMIT_def)
  from crawlSpellPage_attempts[where w = deadCloseFailFetch and e = "\<lambda>i. netError" and url = sampleUrl] dc
  have 3: "fst (crawlSpellPage deadCloseFailFetch sampleUrl) = Inl protocolError"
    "fst (snd (crawlSpellPage deadCloseFailFetch sampleUrl)) = 10"
    by (simp_all add: RETRY_LIMIT_def)
  from crawlSpellPage_attempts[where w = flakyFetch and url = sampleUrl and k = 2
      and sp = sampleSpell and ?l1.0 = l1] f
  have 4: "fst (crawlSpellPage flakyFetch sampleUrl) = Inr (Some sampleSpell)"
    "fst (snd (crawlSpellPage flakyFetch sampleUrl)) = 3"
    by simp_all
  from crawlSpellPage_attempts[where w = okCloseFailFetch and url = sampleUrl and k = 0
      and sp = sampleSpell and ?l1.0 = l1] oc
  have 5: "fst (crawlSpellPage okCloseFailFetch sampleUrl) = Inl protocolError"
    "fst (snd (crawlSpellPage okCloseFailFetch sampleUrl)) = 1"
    by simp_all
  from 1 2 3 4 5 show ?thesis by simp
qed

section \<open>The name extractor is not guarded\<close>

lemma readName_raises:
  "readName p = Inl e \<longleftrightarrow>
     (queryOne p ''#content h2'' = Inl e \<or>
      (queryOne p ''#content h2'' = Inr None \<and> e = notFound ''#content h2''))"
  by (auto simp: readName_def eval_first_def split: sum.splits option.splits)

lemma readSpell_readName_raises:
  "exec_id url = Some i \<Longrightarrow> readName p = Inl e \<Longrightarrow> readSpell url p = Inl e"
  by (simp add: readSpell_def)

text \<open>
  Claim C4. For a url whose identifier can be read: an error of \<open>readName\<close> (the query
  for the heading raises, or no heading is found) is the outcome of the whole
  extraction, so the attempt fails; and when each of the \<open>RETRY_LIMIT\<close> loads shows a
  page on which \<open>readName\<close> raises, \<open>crawlSpellPage\<close> retries all \<open>RETRY_LIMIT\<close> times
  and then raises the error of the last \<open>readName\<close>.
\<close>

theorem readName_failure_aborts_attempt:
  assumes "exec_id url = Some i"
  shows "(readName p = Inl e \<longrightarrow> readSpell url p = Inl e) \<and>
         (readName p = Inl e \<longleftrightarrow>
            (queryOne p ''#content h2'' = Inl e \<or>
             (queryOne p ''#content h2'' = Inr None \<and> e = notFound ''#content h2''))) \<and>
         (fetch_newPage w = None \<and> fetch_close w = None \<and>
          (\<forall>k < nat RETRY_LIMIT. \<exists>q. fetch_goto w k = Inr q \<and> readName q = Inl (e' k)) \<longrightarrow>
            fst (crawlSpellPage w url) = Inl (e' (nat RETRY_LIMIT - 1)) \<and>
            fst (snd (crawlSpellPage w url)) = nat RETRY_LIMIT)"
proof (intro conjI impI)
  assume "readName p = Inl e"
  then show "readSpell url p = Inl e" using assms by (rule readSpell_readName_raises[rotated])
next
  show "readName p = Inl e \<longleftrightarrow>
            (queryOne p ''#content h2'' = Inl e \<or>
             (queryOne p ''#content h2'' = Inr None \<and> e = notFound ''#content h2''))"
    by (rule readName_raises)
next
  assume h: "fetch_newPage w = None \<and> fetch_close w = None \<and>
          (\<forall>k < nat RETRY_LIMIT. \<exists>q. fetch_goto w k = Inr q \<and> readName q = Inl (e' k))"
  have "\<forall>k. 0 \<le> k \<and> k < 0 + nat RETRY_LIMIT \<longrightarrow> attempt w url k = Inl (e' k)"
  proof (intro allI impI)
    fix k assume "0 \<le> k \<and> k < 0 + nat RETRY_LIMIT"
    with h obtain q where "fetch_goto w k = Inr q" "readName q = Inl (e' k)" by auto
    then show "attempt w url k = Inl (e' k)"
      using readSpell_readName_raises[OF assms] by (simp add: attempt_def)
  qed
  from fetchLoop_exhaust[OF _ this, of "[Log Verbose ''Reading spell'' None]"]
  obtain lg' where f: "fetchLoop w url RETRY_LIMIT 0 [Log Verbose ''Reading spell'' None] =
      (Inl (e' (nat RETRY_LIMIT - 1)), nat RETRY_LIMIT, lg')"
    by (auto simp: RETRY_LIMIT_def)
  show "fst (crawlSpellPage w url) = Inl (e' (nat RETRY_LIMIT - 1))"
    using h f by (simp add: crawlSpellPage_def)
  show "fst (snd (crawlSpellPage w url)) = nat RETRY_LIMIT"
    using h f by (simp add: crawlSpellPage_def)
qed

theorem readName_failure_aborts_attempt_witness:
  "exec_id sampleUrl = Some ''2438'' \<and>
   readName namelessPage = Inl (notFound ''#content h2'') \<and>
   readSpell sampleUrl namelessPage = Inl (notFound ''#content h2'') \<and>
   fst (crawlSpellPage namelessFetch sampleUrl) = Inl (notFound ''#content h2'') \<and>
   fst (snd (crawlSpellPage namelessFetch sampleUrl)) = 10"
proof -
  note t = readName_failure_aborts_attempt[OF sample_exec_id,
      where p = namelessPage and e = "notFound ''#content h2''" and w = namelessFetch
        and e' = "\<lambda>k. notFound ''#content h2''"]
  have q: "queryOne namelessPage ''#content h2'' = Inr None" by (simp add: namelessPage_def)
  from t q have n: "readName namelessPage = Inl (notFound ''#content h2'')" by simp
  with t have r: "readSpell sampleUrl namelessPage = Inl (notFound ''#content h2'')" by simp
  have "fetch_newPage namelessFetch = None \<and> fetch_close namelessFetch = None \<and>
        (\<forall>k < nat RETRY_LIMIT. \<exists>q. fetch_goto namelessFetch k = Inr q \<and>
            readName q = Inl (notFound ''#content h2''))"
    using n by (simp add: namelessFetch_def)
  with t have "fst (crawlSpellPage namelessFetch sampleUrl) = Inl (notFound ''#content h2'')"
    "fst (snd (crawlSpellPage namelessFetch sampleUrl)) = 10"
    by (simp_all add: RETRY_LIMIT_def)
  with n r sample_exec_id show ?thesis by simp
qed

section \<open>The identifier of a record\<close>

lemma exec_id_shape:
  "exec_id url = Some d \<Longrightarrow>
   d \<noteq> [] \<and> list_all isDigit d \<and> (\<exists>pre. url = pre @ d \<or> url = pre @ d @ ''/'')"
proof (induction url)
  case Nil
  then show ?case by simp
next
  case (Cons c cs)
  show ?case
  proof (cases "id_match_here (c # cs)")
    case True
    then have d: "d = takeWhile isDigit (c # cs)" using Cons.prems by simp
    have split: "c # cs = takeWhile isDigit (c # cs) @ dropWhile isDigit (c # cs)" by simp
    have all: "list_all isDigit d" unfolding d list_all_iff by (meson set_takeWhileD)
    from True have "d \<noteq> []"
      and tl: "dropWhile isDigit (c # cs) = [] \<or> dropWhile isDigit (c # cs) = ''/''"
      unfolding d id_match_here_def by blast+
    from tl have "c # cs = [] @ d \<or> c # cs = [] @ d @ ''/''"
      using split d by (metis append_Nil append_Nil2)
    then show ?thesis using \<open>d \<noteq> []\<close> all by blast
  next
    case False
    then have "exec_id cs = Some d" using Cons.prems by simp
    from Cons.IH[OF this] obtain pre where
      "d \<noteq> []" "list_all isDigit d" "cs = pre @ d \<or> cs = pre @ d @ ''/''"
      by blast
    then have "c # cs = (c # pre) @ d \<or> c # cs = (c # pre) @ d @ ''/''" by auto
    then show ?thesis using \<open>d \<noteq> []\<close> \<open>list_all isDigit d\<close> by blast
  qed
qed

lemma readSpell_spell_id:
  "readSpell url p = Inr (sp, lg) \<Longrightarrow> exec_id url = Some (spell_id sp)"
  by (auto simp: readSpell_def split: option.splits sum.splits)

text \<open>
  Claim C6. The identifier of a record is a function of the url alone: two documents
  extracted under the same url, and two runs of \<open>crawlSpellPage\<close> on the same url
  against any two browsers, give records with the same identifier; it is group 1 of
  the match on the url, a non-empty run of digits that ends the url or stands before
  its final slash.
\<close>

theorem identifier_depends_on_reference_only:
  "(readSpell url p = Inr (sp, lg) \<and> readSpell url p' = Inr (sp', lg') \<longrightarrow>
      spell_id sp = spell_id sp') \<and>
   (fst (crawlSpellPage w url) = Inr (Some sp) \<and> fst (crawlSpellPage w' url) = Inr (Some sp') \<longrightarrow>
      spell_id sp = spell_id sp') \<and>
   (fst (crawlSpellPage w url) = Inr (Some sp) \<longrightarrow>
      exec_id url = Some (spell_id sp) \<and> spell_id sp \<noteq> [] \<and> list_all isDigit (spell_id sp) \<and>
      (\<exists>pre. url = pre @ spell_id sp \<or> url = pre @ spell_id sp @ ''/''))"
proof (intro conjI impI)
  assume "readSpell url p = Inr (sp, lg) \<and> readSpell url p' = Inr (sp', lg')"
  then have "exec_id url = Some (spell_id sp)" "exec_id url = Some (spell_id sp')"
    using readSpell_spell_id by blast+
  then show "spell_id sp = spell_id sp'" by simp
next
  assume "fst (crawlSpellPage w url) = Inr (Some sp) \<and> fst (crawlSpellPage w' url) = Inr (Some sp')"
  then have "exec_id url = Some (spell_id sp)" "exec_id url = Some (spell_id sp')"
    using crawlSpellPage_result readSpell_spell_id by blast+
  then show "spell_id sp = spell_id sp'" by simp
next
  assume "fst (crawlSpellPage w url) = Inr (Some sp)"
  then have i: "exec_id url = Some (spell_id sp)"
    using crawlSpellPage_result readSpell_spell_id by blast
  from exec_id_shape[OF i] i
  show "exec_id url = Some (spell_id sp)" "spell_id sp \<noteq> []" "list_all isDigit (spell_id sp)"
    "\<exists>pre. url = pre @ spell_id sp \<or> url = pre @ spell_id sp @ ''/''"
    by blast+
qed

theorem identifier_depends_on_reference_only_witness:
  "(\<exists>lg. readSpell sampleUrl samplePage = Inr (sampleSpell, lg)) \<and>
   (\<exists>lg. readSpell sampleUrl brokenPage = Inr (brokenSpell, lg)) \<and>
   spell_id sampleSpell = spell_id brokenSpell \<and>
   fst (crawlSpellPage okFetch sampleUrl) = Inr (Some sampleSpell) \<and>
   exec_id sampleUrl = Some (spell_id sampleSpell) \<and>
   (\<exists>pre. sampleUrl = pre @ spell_id sampleSpell @ ''/'')"
proof -
  obtain l1 where a: "readSpell sampleUrl samplePage = Inr (sampleSpell, l1)"
    using sample_readSpell by blast
  obtain l2 where b: "readSpell sampleUrl brokenPage = Inr (brokenSpell, l2)"
    using broken_readSpell by blast
  have c: "fst (crawlSpellPage okFetch sampleUrl) = Inr (Some sampleSpell)" by code_simp
  note t = identifier_depends_on_reference_only[where url = sampleUrl and p = samplePage
      and sp = sampleSpell and lg = l1 and p' = brokenPage and sp' = brokenSpell and lg' = l2
      and w = okFetch and w' = okFetch]
  from t a b have 1: "spell_id sampleSpell = spell_id brokenSpell" by blast
  from t c have 2: "exec_id sampleUrl = Some (spell_id sampleSpell)"
    and 3: "\<exists>pre. sampleUrl = pre @ spell_id sampleSpell \<or> sampleUrl = pre @ spell_id sampleSpell @ ''/''"
    by blast+
  have "\<not> (\<exists>pre. sampleUrl = pre @ spell_id sampleSpell)"
    by (simp add: sampleUrl_def sampleSpell_def append_eq_Cons_conv)
  with 3 have 4: "\<exists>pre. sampleUrl = pre @ spell_id sampleSpell @ ''/''" by blast
  from a b 1 c 2 4 show ?thesis by blast
qed

section \<open>The guarded field extractors\<close>

lemmas guarded_extractor_defs =
  readSource_def readSchools_def readSubschools_def readDescriptors_def readClassLevels_def readDomainLevels_def readComponents_def readCastingTime_def readRange_def readArea_def readTarget_def readEffect_def readDuration_def readSavingThrow_def readSpellResistance_def readDescription_def

text \<open>
  Claim C3. For each of the sixteen extractors other than \<open>readName\<close>: when its
  \<^verbatim>\<open>try\<close> block raises \<open>e\<close>, the extractor returns its default (\<open>None\<close> for \<^verbatim>\<open>null\<close>, or
  the empty list) and logs one warning carrying \<open>e\<close>. And whatever these extractors
  do, once the identifier and the name are read the record is built: its guarded
  fields are the values the extractors returned.
\<close>

theorem guarded_extractors_degrade:
  "(readSource_try p = Inl e \<longrightarrow>
      readSource p = (None, [Log Warn ''Could not read spell source.'' (Some e)])) \<and>
   (readSchools_try p = Inl e \<longrightarrow>
      readSchools p = ([], [Log Warn ''Could not read spell schools.'' (Some e)])) \<and>
   (readSubschools_try p = Inl e \<longrightarrow>
      readSubschools p = ([], [Log Warn ''Could not read spell subschools.'' (Some e)])) \<and>
   (readDescriptors_try p = Inl e \<longrightarrow>
      readDescriptors p = ([], [Log Warn ''Could not read spell descriptors.'' (Some e)])) \<and>
   (readClassLevels_try p = Inl e \<longrightarrow>
      readClassLevels p = ([], [Log Warn ''Could not read spell classLevels.'' (Some e)])) \<and>
   (readDomainLevels_try p = Inl e \<longrightarrow>
      readDomainLevels p = ([], [Log Warn ''Could not read spell domainLevels.'' (Some e)])) \<and>
   (readComponents_try p = Inl e \<longrightarrow>
      readComponents p = ([], [Log Warn ''Could not read spell components.'' (Some e)])) \<and>
   (readCastingTime_try p = Inl e \<longrightarrow>
      readCastingTime p = (None, [Log Warn ''Could not read spell castingTime.'' (Some e)])) \<and>
   (readRange_try p = Inl e \<longrightarrow>
      readRange p = (None, [Log Warn ''Could not read spell range.'' (Some e)])) \<and>
   (readArea_try p = Inl e \<longrightarrow>
      readArea p = (None, [Log Warn ''Could not read spell area.'' (Some e)])) \<and>
   (readTarget_try p = Inl e \<longrightarrow>
      readTarget p = (None, [Log Warn ''Could not read spell target.'' (Some e)])) \<and>
   (readEffect_try p = Inl e \<longrightarrow>
      readEffect p = (None, [Log Warn ''Could not read spell effect.'' (Some e)])) \<and>
   (readDuration_try p = Inl e \<longrightarrow>
      readDuration p = (None, [Log Warn ''Could not read spell duration.'' (Some e)])) \<and>
   (readSavingThrow_try p = Inl e \<longrightarrow>
      readSavingThrow p = (None, [Log Warn ''Could not read spell savingThrow.'' (Some e)])) \<and>
   (readSpellResistance_try p = Inl e \<longrightarrow>
      readSpellResistance p = (None, [Log Warn ''Could not read spell spellResistance.'' (Some e)])) \<and>
   (readDescription_try p = Inl e \<longrightarrow>
      readDescription p = (None, [Log Warn ''Could not read spell description.'' (Some e)])) \<and>
   (exec_id url = Some i \<and> readName p = Inr (nm, l0) \<longrightarrow>
      (\<exists>sp lg. readSpell url p = Inr (sp, lg) \<and> spell_id sp = i \<and> name sp = nm \<and>
          source sp = fst (readSource p) \<and>
          schools sp = fst (readSchools p) \<and>
          subschools sp = fst (readSubschools p) \<and>
          descriptors sp = fst (readDescriptors p) \<and>
          classLevels sp = fst (readClassLevels p) \<and>
          domainLevels sp = fst (readDomainLevels p) \<and>
          components sp = fst (readComponents p) \<and>
          castingTime sp = fst (readCastingTime p) \<and>
          spell_range sp = fst (readRange p) \<and>
          area sp = fst (readArea p) \<and>
          target sp = fst (readTarget p) \<and>
          effect sp = fst (readEffect p) \<and>
          duration sp = fst (readDuration p) \<and>
          savingThrow sp = fst (readSavingThrow p) \<and>
          spellResistance sp = fst (readSpellResistance p) \<and>
          description sp = fst (readDescription p)))"
  by (simp add: guarded_extractor_defs readSpell_def)

theorem guarded_extractors_degrade_witness:
  "readSource_try brokenPage = Inl protocolError \<and>
   readSchools_try brokenPage = Inl protocolError \<and>
   readSubschools_try brokenPage = Inl protocolError \<and>
   readDescriptors_try brokenPage = Inl protocolError \<and>
   readClassLevels_try brokenPage = Inl protocolError \<and>
   readDomainLevels_try brokenPage = Inl protocolError \<and>
   readComponents_try brokenPage = Inl protocolError \<and>
   readCastingTime_try brokenPage = Inl protocolError \<and>
   readRange_try brokenPage = Inl protocolError \<and>
   readArea_try brokenPage = Inl protocolError \<and>
   readTarget_try brokenPage = Inl protocolError \<and>
   readEffect_try brokenPage = Inl protocolError \<and>
   readDuration_try brokenPage = Inl protocolError \<and>
   readSavingThrow_try brokenPage = Inl protocolError \<and>
   readSpellResistance_try brokenPage = Inl protocolError \<and>
   readDescription_try brokenPage = Inl protocolError \<and>
   readSource brokenPage = (None, [Log Warn ''Could not read spell source.'' (Some protocolError)]) \<and>
   readSchools brokenPage = ([], [Log Warn ''Could not read spell schools.'' (Some protocolError)]) \<and>
   readSubschools brokenPage = ([], [Log Warn ''Could not read spell subschools.'' (Some protocolError)]) \<and>
   readDescriptors brokenPage = ([], [Log Warn ''Could not read spell descriptors.'' (Some protocolError)]) \<and>
   readClassLevels brokenPage = ([], [Log Warn ''Could not read spell classLevels.'' (Some protocolError)]) \<and>
   readDomainLevels brokenPage = ([], [Log Warn ''Could not read spell domainLevels.'' (Some protocolError)]) \<and>
   readComponents brokenPage = ([], [Log Warn ''Could not read spell components.'' (Some protocolError)]) \<and>
   readCastingTime brokenPage = (None, [Log Warn ''Could not read spell castingTime.'' (Some protocolError)]) \<and>
   readRange brokenPage = (None, [Log Warn ''Could not read spell range.'' (Some protocolError)]) \<and>
   readArea brokenPage = (None, [Log Warn ''Could not read spell area.'' (Some protocolError)]) \<and>
   readTarget brokenPage = (None, [Log Warn ''Could not read spell target.'' (Some protocolError)]) \<and>
   readEffect brokenPage = (None, [Log Warn ''Could not read spell effect.'' (Some protocolError)]) \<and>
   readDuration brokenPage = (None, [Log Warn ''Could not read spell duration.'' (Some protocolError)]) \<and>
   readSavingThrow brokenPage = (None, [Log Warn ''Could not read spell savingThrow.'' (Some protocolError)]) \<and>
   readSpellResistance brokenPage = (None, [Log Warn ''Could not read spell spellResistance.'' (Some protocolError)]) \<and>
   readDescription brokenPage = (None, [Log Warn ''Could not read spell description.'' (Some protocolError)]) \<and>
   exec_id sampleUrl = Some ''2438'' \<and>
   readName brokenPage = Inr (''Fireball'', [Log Debug ''Read name.'' None]) \<and>
   (\<exists>sp lg. readSpell sampleUrl brokenPage = Inr (sp, lg) \<and> spell_id sp = ''2438'' \<and>
      name sp = ''Fireball'' \<and>
      source sp = None \<and>
      schools sp = [] \<and>
      subschools sp = [] \<and>
      descriptors sp = [] \<and>
      classLevels sp = [] \<and>
      domainLevels sp = [] \<and>
      components sp = [] \<and>
      castingTime sp = None \<and>
      spell_range sp = None \<and>
      area sp = None \<and>
      target sp = None \<and>
      effect sp = None \<and>
      duration sp = None \<and>
      savingThrow sp = None \<and>
      spellResistance sp = None \<and>
      description sp = None)"
proof -
  note t = guarded_extractors_degrade[where p = brokenPage and e = protocolError
      and url = sampleUrl and i = "''2438''" and nm = "''Fireball''"
      and ?l0.0 = "[Log Debug ''Read name.'' None]"]
  have h: "readSource_try brokenPage = Inl protocolError" "readSchools_try brokenPage = Inl protocolError" "readSubschools_try brokenPage = Inl protocolError" "readDescriptors_try brokenPage = Inl protocolError" "readClassLevels_try brokenPage = Inl protocolError" "readDomainLevels_try brokenPage = Inl protocolError" "readComponents_try brokenPage = Inl protocolError" "readCastingTime_try brokenPage = Inl protocolError" "readRange_try brokenPage = Inl protocolError" "readArea_try brokenPage = Inl protocolError" "readTarget_try brokenPage = Inl protocolError" "readEffect_try brokenPage = Inl protocolError" "readDuration_try brokenPage = Inl protocolError" "readSavingThrow_try brokenPage = Inl protocolError" "readSpellResistance_try brokenPage = Inl protocolError" "readDescription_try brokenPage = Inl protocolError"
    by code_simp+
  have n: "readName brokenPage = Inr (''Fireball'', [Log Debug ''Read name.'' None])"
    by code_simp
  from t h have d: "readSource brokenPage = (None, [Log Warn ''Could not read spell source.'' (Some protocolError)])"
    "readSchools brokenPage = ([], [Log Warn ''Could not read spell schools.'' (Some protocolError)])"
    "readSubschools brokenPage = ([], [Log Warn ''Could not read spell subschools.'' (Some protocolError)])"
    "readDescriptors brokenPage = ([], [Log Warn ''Could not read spell descriptors.'' (Some protocolError)])"
    "readClassLevels brokenPage = ([], [Log Warn ''Could not read spell classLevels.'' (Some protocolError)])"
    "readDomainLevels brokenPage = ([], [Log Warn ''Could not read spell domainLevels.'' (Some protocolError)])"
    "readComponents brokenPage = ([], [Log Warn ''Could not read spell components.'' (Some protocolError)])"
    "readCastingTime brokenPage = (None, [Log Warn ''Could not read spell castingTime.'' (Some protocolError)])"
    "readRange brokenPage = (None, [Log Warn ''Could not read spell range.'' (Some protocolError)])"
    "readArea brokenPage = (None, [Log Warn ''Could not read spell area.'' (Some protocolError)])"
    "readTarget brokenPage = (None, [Log Warn ''Could not read spell target.'' (Some protocolError)])"
    "readEffect brokenPage = (None, [Log Warn ''Could not read spell effect.'' (Some protocolError)])"
    "readDuration brokenPage = (None, [Log Warn ''Could not read spell duration.'' (Some protocolError)])"
    "readSavingThrow brokenPage = (None, [Log Warn ''Could not read spell savingThrow.'' (Some protocolError)])"
    "readSpellResistance brokenPage = (None, [Log Warn ''Could not read spell spellResistance.'' (Some protocolError)])"
    "readDescription brokenPage = (None, [Log Warn ''Could not read spell description.'' (Some protocolError)])"
    by simp_all
  from t n sample_exec_id have "\<exists>sp lg. readSpell sampleUrl brokenPage = Inr (sp, lg) \<and>
      spell_id sp = ''2438'' \<and> name sp = ''Fireball'' \<and>
      source sp = fst (readSource brokenPage) \<and> schools sp = fst (readSchools brokenPage) \<and>
      subschools sp = fst (readSubschools brokenPage) \<and>
      descriptors sp = fst (readDescriptors brokenPage) \<and>
      classLevels sp = fst (readClassLevels brokenPage) \<and>
      domainLevels sp = fst (readDomainLevels brokenPage) \<and>
      components sp = fst (readComponents brokenPage) \<and>
      castingTime sp = fst (readCastingTime brokenPage) \<and>
      spell_range sp = fst (readRange brokenPage) \<and> area sp = fst (readArea brokenPage) \<and>
      target sp = fst (readTarget brokenPage) \<and> effect sp = fst (readEffect brokenPage) \<and>
      duration sp = fst (readDuration brokenPage) \<and>
      savingThrow sp = fst (readSavingThrow brokenPage) \<and>
      spellResistance sp = fst (readSpellResistance brokenPage) \<and>
      description sp = fst (readDescription brokenPage)"
    by simp
  then have r: "\<exists>sp lg. readSpell sampleUrl brokenPage = Inr (sp, lg) \<and>
      spell_id sp = ''2438'' \<and> name sp = ''Fireball'' \<and>
      source sp = None \<and> schools sp = [] \<and> subschools sp = [] \<and> descriptors sp = [] \<and>
      classLevels sp = [] \<and> domainLevels sp = [] \<and> components sp = [] \<and>
      castingTime sp = None \<and> spell_range sp = None \<and> area sp = None \<and> target sp = None \<and>
      effect sp = None \<and> duration sp = None \<and> savingThrow sp = None \<and>
      spellResistance sp = None \<and> description sp = None"
    unfolding d by simp
  from h d n sample_exec_id r show ?thesis
    by (intro conjI) assumption+
qed

section \<open>Class and domain levels\<close>



















section \<open>The task runner: one item\<close>

lemma itemLoop_exhaust:
  "(\<forall>i. j \<le> i \<and> i < j + nat rc \<longrightarrow> fst (crawlSpellPage (w i) (spellPageUrl u)) = Inl (e i)) \<Longrightarrow>
   \<exists>rc' lg'. rc' < 0 \<and> itemLoop cb w u rc err j st lg =
      (rc', (if 0 < rc then Some (e (j + nat rc - 1)) else err), j + nat rc, st, lg')"
proof (induction "nat rc" arbitrary: rc err j lg)
  case 0
  then show ?case by (subst itemLoop.simps) simp
next
  case (Suc m)
  have pos: "0 < rc" using Suc(2) by simp
  have m: "m = nat (rc - 1)" using Suc(2) by simp
  have "fst (crawlSpellPage (w j) (spellPageUrl u)) = Inl (e j)" using Suc(3) pos by simp
  then obtain n l1 where c: "crawlSpellPage (w j) (spellPageUrl u) = (Inl (e j), n, l1)"
    by (cases "crawlSpellPage (w j) (spellPageUrl u)") auto
  have s: "j + nat rc = Suc j + nat (rc - 1)" using pos by simp
  have "\<forall>i. Suc j \<le> i \<and> i < Suc j + nat (rc - 1) \<longrightarrow>
          fst (crawlSpellPage (w i) (spellPageUrl u)) = Inl (e i)"
    using Suc(3) s by simp
  from Suc(1)[OF m this, of "Some (e j)"
      "lg @ l1 @ [Log Warn ''Error when crawling spell page, retrying.'' (Some (e j))]"]
  obtain rc' lg' where r: "rc' < 0" "itemLoop cb w u (rc - 1) (Some (e j)) (Suc j) st
          (lg @ l1 @ [Log Warn ''Error when crawling spell page, retrying.'' (Some (e j))]) =
      (rc', (if 0 < rc - 1 then Some (e (Suc j + nat (rc - 1) - 1)) else Some (e j)),
       Suc j + nat (rc - 1), st, lg')"
    by blast
  have e: "(if 0 < rc - 1 then Some (e (Suc j + nat (rc - 1) - 1)) else Some (e j)) =
           Some (e (j + nat rc - 1))"
  proof (cases "0 < rc - 1")
    case True
    then show ?thesis using s by simp
  next
    case False
    then have "rc = 1" using pos by simp
    then show ?thesis by simp
  qed
  show ?case
    apply (subst itemLoop.simps)
    using pos c r e s by simp
qed

lemma itemLoop_success:
  "m < nat rc \<Longrightarrow>
   (\<forall>i. j \<le> i \<and> i < j + m \<longrightarrow> fst (crawlSpellPage (w i) (spellPageUrl u)) = Inl (e i)) \<Longrightarrow>
   fst (crawlSpellPage (w (j + m)) (spellPageUrl u)) = Inr sp \<Longrightarrow>
   cb sp st = (st', l2, None) \<Longrightarrow>
   \<exists>lg'. itemLoop cb w u rc err j st lg =
      (rc - int m - 1, (if m = 0 then err else Some (e (j + m - 1))), Suc (j + m), st', lg')"
proof (induction m arbitrary: rc err j lg)
  case 0
  then obtain n l1 where c: "crawlSpellPage (w j) (spellPageUrl u) = (Inr sp, n, l1)"
    by (cases "crawlSpellPage (w j) (spellPageUrl u)") auto
  show ?case
    apply (subst itemLoop.simps)
    using 0 c by simp
next
  case (Suc m)
  have pos: "0 < rc" using Suc.prems(1) by simp
  have "fst (crawlSpellPage (w j) (spellPageUrl u)) = Inl (e j)" using Suc.prems(2) by simp
  then obtain n l1 where c: "crawlSpellPage (w j) (spellPageUrl u) = (Inl (e j), n, l1)"
    by (cases "crawlSpellPage (w j) (spellPageUrl u)") auto
  have "\<exists>lg'. itemLoop cb w u (rc - 1) (Some (e j)) (Suc j) st
          (lg @ l1 @ [Log Warn ''Error when crawling spell page, retrying.'' (Some (e j))]) =
      (rc - 1 - int m - 1, (if m = 0 then Some (e j) else Some (e (Suc j + m - 1))),
       Suc (Suc j + m), st', lg')"
    apply (rule Suc.IH)
    using Suc.prems by auto
  then obtain lg' where r: "itemLoop cb w u (rc - 1) (Some (e j)) (Suc j) st
          (lg @ l1 @ [Log Warn ''Error when crawling spell page, retrying.'' (Some (e j))]) =
      (rc - 1 - int m - 1, (if m = 0 then Some (e j) else Some (e (Suc j + m - 1))),
       Suc (Suc j + m), st', lg')"
    by blast
  have e: "(if m = 0 then Some (e j) else Some (e (Suc j + m - 1))) = Some (e (j + Suc m - 1))"
    by simp
  show ?case
    apply (subst itemLoop.simps)
    using pos c r e by simp
qed

text \<open>
  The iteratee in general: when the calls before the \<open>m\<close>-th raise, that call returns
  and the callback accepts, the callback's state is kept and \<^verbatim>\<open>done\<close> gets no error,
  except when \<open>m\<close> is the last call allowed: then \<^verbatim>\<open>done\<close> gets the error of the call
  before.
\<close>

lemma iteratee_returns_at:
  assumes "m < nat RETRY_LIMIT"
    and "\<forall>i < m. fst (crawlSpellPage (w i) (spellPageUrl u)) = Inl (e i)"
    and "fst (crawlSpellPage (w m) (spellPageUrl u)) = Inr sp"
    and "spellCallback sp st = (st', l2, None)"
  shows "fst (iteratee spellCallback w u st) =
           (if Suc m = nat RETRY_LIMIT then Some (e (m - 1)) else None) \<and>
         fst (snd (iteratee spellCallback w u st)) = Suc m \<and>
         fst (snd (snd (iteratee spellCallback w u st))) = st'"
proof -
  from itemLoop_success[of m RETRY_LIMIT 0 w u e sp spellCallback st st' l2 None "[]"] assms
  obtain lg' where "itemLoop spellCallback w u RETRY_LIMIT None 0 st [] =
      (RETRY_LIMIT - int m - 1, (if m = 0 then None else Some (e (m - 1))), Suc m, st', lg')"
    by auto
  then show ?thesis using assms(1) by (auto simp: iteratee_def RETRY_LIMIT_def)
qed

lemma iteratee_exhaust:
  assumes "\<forall>i < nat RETRY_LIMIT. fst (crawlSpellPage (w i) (spellPageUrl u)) = Inl (e i)"
  shows "fst (iteratee spellCallback w u st) = Some (e (nat RETRY_LIMIT - 1)) \<and>
         fst (snd (iteratee spellCallback w u st)) = nat RETRY_LIMIT \<and>
         fst (snd (snd (iteratee spellCallback w u st))) = st"
proof -
  from itemLoop_exhaust[of 0 RETRY_LIMIT w u e spellCallback None st "[]"] assms
  obtain rc' lg' where "rc' < 0" "itemLoop spellCallback w u RETRY_LIMIT None 0 st [] =
      (rc', (if 0 < RETRY_LIMIT then Some (e (nat RETRY_LIMIT - 1)) else None), nat RETRY_LIMIT, st, lg')"
    by auto
  then show ?thesis by (auto simp: iteratee_def RETRY_LIMIT_def)
qed

text \<open>
  The iteratee for any callback and browser: when the calls of \<open>crawlSpellPage\<close> before
  the \<open>m\<close>-th raise (\<open>m < RETRY_LIMIT\<close>, counted from 0), the \<open>m\<close>-th returns and the
  callback accepts the value, then \<open>m + 1\<close> calls are made, the state is the one the
  callback left, and \<^verbatim>\<open>done\<close> gets no error unless \<open>m\<close> is the last call allowed, where it
  gets the error of the call before.
\<close>

theorem iteratee_first_success:
  assumes "m < nat RETRY_LIMIT"
    and "\<forall>i < m. fst (crawlSpellPage (w i) (spellPageUrl u)) = Inl (e i)"
    and "fst (crawlSpellPage (w m) (spellPageUrl u)) = Inr sp"
    and "spellCallback sp st = (st', l2, None)"
  shows "fst (iteratee spellCallback w u st) =
           (if Suc m = nat RETRY_LIMIT then Some (e (m - 1)) else None) \<and>
         fst (snd (iteratee spellCallback w u st)) = Suc m \<and>
         fst (snd (snd (iteratee spellCallback w u st))) = st'"
  using assms by (rule iteratee_returns_at)

lemma dead_crawlSpellPage: "fst (crawlSpellPage deadFetch sampleUrl) = Inl netError"
  by code_simp

lemma ok_crawlSpellPage: "fst (crawlSpellPage okFetch sampleUrl) = Inr (Some sampleSpell)"
  by code_simp

theorem iteratee_first_success_witness:
  "fst (iteratee mainCallback (\<lambda>j. if j < 2 then deadFetch else okFetch) (Some sampleRef)
          \<lparr>spells = [], spellCounter = 0\<rparr>) = None \<and>
   fst (snd (iteratee mainCallback (\<lambda>j. if j < 2 then deadFetch else okFetch) (Some sampleRef)
          \<lparr>spells = [], spellCounter = 0\<rparr>)) = 3 \<and>
   fst (snd (snd (iteratee mainCallback (\<lambda>j. if j < 2 then deadFetch else okFetch) (Some sampleRef)
          \<lparr>spells = [], spellCounter = 0\<rparr>))) =
     \<lparr>spells = [sampleSpell], spellCounter = 1\<rparr>"
proof -
  have a: "\<forall>i < 2. fst (crawlSpellPage ((\<lambda>j::nat. if j < 2 then deadFetch else okFetch) i)
              (spellPageUrl (Some sampleRef))) = Inl ((\<lambda>i. netError) i)"
    by (simp add: sample_spellPageUrl dead_crawlSpellPage)
  have b: "fst (crawlSpellPage ((\<lambda>j::nat. if j < 2 then deadFetch else okFetch) 2)
              (spellPageUrl (Some sampleRef))) = Inr (Some sampleSpell)"
    by (simp add: sample_spellPageUrl ok_crawlSpellPage)
  have c: "mainCallback (Some sampleSpell) \<lparr>spells = [], spellCounter = 0\<rparr> =
      (\<lparr>spells = [sampleSpell], spellCounter = 1\<rparr>, [Log Info ''Read spell.'' None], None)"
    by (simp add: mainCallback_def)
  have m: "2 < nat RETRY_LIMIT" by (simp add: RETRY_LIMIT_def)
  from iteratee_first_success[where w = "\<lambda>j. if j < 2 then deadFetch else okFetch"
      and e = "\<lambda>i. netError" and m = 2
      and spellCallback = mainCallback and sp = "Some sampleSpell" and u = "Some sampleRef"
      and st = "\<lparr>spells = [], spellCounter = 0\<rparr>", OF m a b c]
  show ?thesis by (simp add: RETRY_LIMIT_def)
qed

text \<open>
  Claim C1 says that an item one of whose \<open>RETRY_LIMIT\<close> attempts succeeds completes
  without error. The iteratee departs from it at the last attempt: for \<open>lastTryItem\<close>,
  whose first nine calls of \<open>crawlSpellPage\<close> raise and whose tenth returns
  \<open>sampleSpell\<close>, the callback is invoked with the spell (the state holds it) and yet
  \<^verbatim>\<open>done\<close> gets the error of the ninth call, so \<open>crawlSpellPages\<close> rejects with it.
\<close>

theorem iteratee_last_try_reports_error:
  "fst (iteratee mainCallback lastTryItem (Some sampleRef) \<lparr>spells = [], spellCounter = 0\<rparr>) = Some netError \<and>
   fst (snd (iteratee mainCallback lastTryItem (Some sampleRef) \<lparr>spells = [], spellCounter = 0\<rparr>)) = 10 \<and>
   spells (fst (snd (snd (iteratee mainCallback lastTryItem (Some sampleRef) \<lparr>spells = [], spellCounter = 0\<rparr>)))) =
     [sampleSpell] \<and>
   fst (crawlSpellPages (\<lambda>i. lastTryItem) [Some sampleRef] mainCallback \<lparr>spells = [], spellCounter = 0\<rparr>) =
     Some netError"
proof -
  have a: "\<forall>i < 9. fst (crawlSpellPage (lastTryItem i) (spellPageUrl (Some sampleRef))) = Inl ((\<lambda>i. netError) i)"
    by (simp add: lastTryItem_def sample_spellPageUrl dead_crawlSpellPage)
  have b: "fst (crawlSpellPage (lastTryItem 9) (spellPageUrl (Some sampleRef))) = Inr (Some sampleSpell)"
    by (simp add: lastTryItem_def sample_spellPageUrl ok_crawlSpellPage)
  have c: "mainCallback (Some sampleSpell) \<lparr>spells = [], spellCounter = 0\<rparr> =
      (\<lparr>spells = [sampleSpell], spellCounter = 1\<rparr>, [Log Info ''Read spell.'' None], None)"
    by (simp add: mainCallback_def)
  have m: "9 < nat RETRY_LIMIT" by (simp add: RETRY_LIMIT_def)
  from iteratee_returns_at[where w = lastTryItem and e = "\<lambda>i. netError" and m = 9
      and spellCallback = mainCallback and sp = "Some sampleSpell" and u = "Some sampleRef"
      and st = "\<lparr>spells = [], spellCounter = 0\<rparr>", OF m a b c]
  have i: "fst (iteratee mainCallback lastTryItem (Some sampleRef) \<lparr>spells = [], spellCounter = 0\<rparr>) = Some netError"
    "fst (snd (iteratee mainCallback lastTryItem (Some sampleRef) \<lparr>spells = [], spellCounter = 0\<rparr>)) = 10"
    "fst (snd (snd (iteratee mainCallback lastTryItem (Some sampleRef) \<lparr>spells = [], spellCounter = 0\<rparr>))) =
       \<lparr>spells = [sampleSpell], spellCounter = 1\<rparr>"
    by (simp_all add: RETRY_LIMIT_def)
  have "fst (crawlSpellPages (\<lambda>i. lastTryItem) [Some sampleRef] mainCallback \<lparr>spells = [], spellCounter = 0\<rparr>) =
     Some netError"
    using i(1) by (auto simp: crawlSpellPages_def split: prod.splits option.splits)
  with i show ?thesis by simp
qed

section \<open>The task runner over all items, and the driver\<close>

text \<open>
  With the callback of the driver, the loop of an item either breaks after one spell
  was pushed, or ends with the state unchanged; when it leaves no error behind, no
  call has raised.
\<close>

lemma itemLoop_mainCallback:
  "itemLoop mainCallback w u rc err j st lg = (rc', err', j', st', lg') \<Longrightarrow>
     (0 \<le> rc' \<and> (\<exists>sp. spells st' = spells st @ [sp]) \<and> (err' = None \<longrightarrow> err = None \<and> rc' = rc - 1)) \<or>
     (rc' < 0 \<and> st' = st \<and> (err' = None \<longrightarrow> err = None \<and> rc \<le> 0))"
proof (induction "nat rc" arbitrary: rc err j lg)
  case 0
  then show ?case by (subst (asm) itemLoop.simps) auto
next
  case (Suc m)
  have pos: "0 < rc" using Suc(2) by simp
  have m: "m = nat (rc - 1)" using Suc(2) by simp
  obtain r n l1 where c: "crawlSpellPage (w j) (spellPageUrl u) = (r, n, l1)"
    by (cases "crawlSpellPage (w j) (spellPageUrl u)") auto
  show ?case
  proof (cases r)
    case (Inl e)
    have "itemLoop mainCallback w u (rc - 1) (Some e) (Suc j) st
            (lg @ l1 @ [Log Warn ''Error when crawling spell page, retrying.'' (Some e)]) =
          (rc', err', j', st', lg')"
      using Suc(3) pos c Inl by (subst (asm) itemLoop.simps) simp
    from Suc(1)[OF m this] show ?thesis by auto
  next
    case (Inr spo)
    show ?thesis
    proof (cases spo)
      case None
      have "itemLoop mainCallback w u (rc - 1) (Some TypeError) (Suc j) st
            (lg @ l1 @ [] @ [Log Warn ''Error when crawling spell page, retrying.'' (Some TypeError)]) =
          (rc', err', j', st', lg')"
        using Suc(3) pos c Inr None by (subst (asm) itemLoop.simps) (simp add: mainCallback_def)
      from Suc(1)[OF m this] show ?thesis by auto
    next
      case (Some sp)
      have "(rc - 1, err, Suc j, \<lparr>spells = spells st @ [sp], spellCounter = Suc (spellCounter st)\<rparr>,
             lg @ l1 @ [Log Info ''Read spell.'' None]) = (rc', err', j', st', lg')"
        using Suc(3) pos c Inr Some by (subst (asm) itemLoop.simps) (simp add: mainCallback_def)
      then show ?thesis using pos by auto
    qed
  qed
qed

lemma iteratee_mainCallback_success:
  assumes "iteratee mainCallback w u st = (None, j, st', lg)"
  shows "\<exists>sp. spells st' = spells st @ [sp]"
proof -
  obtain rc' err' j' st'' lg' where l:
    "itemLoop mainCallback w u RETRY_LIMIT None 0 st [] = (rc', err', j', st'', lg')"
    by (metis prod_cases5)
  from assms l have r: "(if rc' > 0 then None else err') = None" "st'' = st'"
    by (auto simp: iteratee_def)
  from itemLoop_mainCallback[OF l] r show ?thesis
    by (auto simp: RETRY_LIMIT_def split: if_splits)
qed

lemma eachItem_mainCallback_length:
  "eachItem mainCallback W k urls st = (None, st', lg) \<Longrightarrow>
   length (spells st') = length (spells st) + length urls"
proof (induction urls arbitrary: k st lg)
  case Nil
  then show ?case by simp
next
  case (Cons u urls)
  obtain r j st1 l1 where i: "iteratee mainCallback (W k) u st = (r, j, st1, l1)"
    by (metis prod_cases4)
  show ?case
  proof (cases r)
    case (Some e)
    then show ?thesis using Cons.prems i by simp
  next
    case None
    obtain r2 st2 l2 where e: "eachItem mainCallback W (Suc k) urls st1 = (r2, st2, l2)"
      by (metis prod_cases3)
    then have "r2 = None" "st2 = st'" using Cons.prems i None by auto
    with Cons.IH[of "Suc k" st1 l2] e
    have "length (spells st') = length (spells st1) + length urls" by simp
    moreover from iteratee_mainCallback_success[of "W k" u st j st1 l1] i None
    have "length (spells st1) = Suc (length (spells st))" by auto
    ultimately show ?thesis by simp
  qed
qed

lemma eachItem_rejects:
  "i < length urls \<Longrightarrow> (\<forall>st. fst (iteratee cb (W (k + i)) (urls ! i) st) \<noteq> None) \<Longrightarrow>
   fst (eachItem cb W k urls st0) \<noteq> None"
proof (induction urls arbitrary: i k st0)
  case Nil
  then show ?case by simp
next
  case (Cons u urls)
  obtain r j st1 l1 where it: "iteratee cb (W k) u st0 = (r, j, st1, l1)"
    by (metis prod_cases4)
  show ?case
  proof (cases r)
    case (Some e)
    then show ?thesis using it by simp
  next
    case None
    have "i \<noteq> 0" using Cons.prems(2) it None by (cases i) (auto dest: spec[of _ st0])
    then obtain i' where i': "i = Suc i'" by (cases i) auto
    have "fst (eachItem cb W (Suc k) urls st1) \<noteq> None"
      apply (rule Cons.IH[of i'])
      using Cons.prems i' by auto
    then show ?thesis using it None by (auto split: prod.splits)
  qed
qed

lemma crawlSpellPages_exhausted_item:
  assumes "i < length urls"
    and "\<forall>j < nat RETRY_LIMIT. \<exists>e. fst (crawlSpellPage (W i j) (spellPageUrl (urls ! i))) = Inl e"
  shows "fst (crawlSpellPages W urls cb st) \<noteq> None"
proof -
  from assms(2) have "\<exists>e. \<forall>j < nat RETRY_LIMIT.
      fst (crawlSpellPage (W i j) (spellPageUrl (urls ! i))) = Inl (e j)"
    by metis
  then obtain e where e: "\<forall>j < nat RETRY_LIMIT.
      fst (crawlSpellPage (W i j) (spellPageUrl (urls ! i))) = Inl (e j)"
    by blast
  have "\<forall>st. fst (iteratee cb (W (0 + i)) (urls ! i) st) \<noteq> None"
    by (simp add: iteratee_exhaust[OF e])
  from eachItem_rejects[of i urls cb W 0 st, OF assms(1) this] show ?thesis
    by (simp add: crawlSpellPages_def)
qed

lemma crawlAndPrint_cases:
  assumes "crawlAndPrint w r = (out, l3)"
  shows "out = [] \<or>
         (\<exists>urls st l2. r = Inr urls \<and> urls \<noteq> [] \<and>
            crawlSpellPages (main_items w) urls mainCallback \<lparr>spells = [], spellCounter = 0\<rparr> = (None, st, l2) \<and>
            out = [spells st] \<and> length (spells st) = length urls)"
proof (cases r)
  case (Inl e)
  then show ?thesis using assms by (simp add: crawlAndPrint_def)
next
  case (Inr urls)
  show ?thesis
  proof (cases "urls = []")
    case True
    then show ?thesis using assms Inr by (simp add: crawlAndPrint_def)
  next
    case False
    obtain res st l2 where c:
      "crawlSpellPages (main_items w) urls mainCallback \<lparr>spells = [], spellCounter = 0\<rparr> = (res, st, l2)"
      by (metis prod_cases3)
    show ?thesis
    proof (cases res)
      case (Some e)
      then show ?thesis using assms Inr False c by (simp add: crawlAndPrint_def)
    next
      case None
      have "length (spells st) = length urls"
        using eachItem_mainCallback_length[of "main_items w" 0 urls "\<lparr>spells = [], spellCounter = 0\<rparr>" st l2] c None
        by (simp add: crawlSpellPages_def)
      moreover have "out = [spells st]" using assms Inr False c None by (simp add: crawlAndPrint_def)
      ultimately show ?thesis using Inr False c None by blast
    qed
  qed
qed

lemma crawlAndPrint_reject:
  assumes "fst (crawlSpellPages (main_items w) urls mainCallback \<lparr>spells = [], spellCounter = 0\<rparr>) \<noteq> None"
  shows "fst (crawlAndPrint w (Inr urls)) = []"
  using assms by (auto simp: crawlAndPrint_def split: prod.splits option.splits)

lemma main_Some:
  assumes "main w = Some (out, lg)"
  shows "(main_launch w \<noteq> None \<and> out = []) \<or>
         (main_launch w = None \<and>
          (\<exists>r l1 l3. crawlSpellListPages (main_list w) = Some (r, l1) \<and> crawlAndPrint w r = (out, l3)))"
  using assms by (auto simp: main_def split: option.splits prod.splits)

text \<open>
  The driver fails to end only when the browser started and the paginator never
  returns; the one write to standard output comes after both phases, so nothing is
  written on such a run.
\<close>

lemma main_None:
  "main w = None \<longleftrightarrow> main_launch w = None \<and> crawlSpellListPages (main_list w) = None"
  by (auto simp: main_def split: option.splits prod.splits)

text \<open>
  Claim C9. Whenever the driver ends, it has written nothing to standard output, or
  the browser started, the paginator returned a non-empty list of references,
  \<open>crawlSpellPages\<close> resolved over it, and the one thing written is the array of the
  spells collected, one for each reference. Nothing is written when the browser does
  not start, when \<open>crawlSpellPages\<close> rejects, or when all \<open>RETRY_LIMIT\<close> calls of
  \<open>crawlSpellPage\<close> for some reference raise.
\<close>

theorem output_all_or_nothing:
  assumes "main w = Some (out, lg)"
  shows "(out = [] \<or>
          (\<exists>urls l1 st l2. main_launch w = None \<and>
             crawlSpellListPages (main_list w) = Some (Inr urls, l1) \<and> urls \<noteq> [] \<and>
             crawlSpellPages (main_items w) urls mainCallback \<lparr>spells = [], spellCounter = 0\<rparr> = (None, st, l2) \<and>
             out = [spells st] \<and> length (spells st) = length urls)) \<and>
         (main_launch w \<noteq> None \<longrightarrow> out = []) \<and>
         (\<forall>urls l1. crawlSpellListPages (main_list w) = Some (Inr urls, l1) \<and>
             fst (crawlSpellPages (main_items w) urls mainCallback \<lparr>spells = [], spellCounter = 0\<rparr>) \<noteq> None
             \<longrightarrow> out = []) \<and>
         (\<forall>urls l1 i. crawlSpellListPages (main_list w) = Some (Inr urls, l1) \<and> i < length urls \<and>
             (\<forall>j < nat RETRY_LIMIT. \<exists>e. fst (crawlSpellPage (main_items w i j) (spellPageUrl (urls ! i))) = Inl e)
             \<longrightarrow> out = [])"
proof -
  note m = main_Some[OF assms]
  have a: "out = [] \<or>
          (\<exists>urls l1 st l2. main_launch w = None \<and>
             crawlSpellListPages (main_list w) = Some (Inr urls, l1) \<and> urls \<noteq> [] \<and>
             crawlSpellPages (main_items w) urls mainCallback \<lparr>spells = [], spellCounter = 0\<rparr> = (None, st, l2) \<and>
             out = [spells st] \<and> length (spells st) = length urls)"
  proof (cases "out = []")
    case True
    then show ?thesis by simp
  next
    case False
    with m obtain r l1 l3 where l: "main_launch w = None"
      "crawlSpellListPages (main_list w) = Some (r, l1)" "crawlAndPrint w r = (out, l3)"
      by blast
    from crawlAndPrint_cases[OF l(3)] False l(1,2) show ?thesis by blast
  qed
  have b: "main_launch w \<noteq> None \<longrightarrow> out = []" using m by auto
  have c: "out = []" if h: "crawlSpellListPages (main_list w) = Some (Inr urls, l1)"
    "fst (crawlSpellPages (main_items w) urls mainCallback \<lparr>spells = [], spellCounter = 0\<rparr>) \<noteq> None"
    for urls l1
  proof -
    from m show ?thesis
    proof
      assume "main_launch w \<noteq> None \<and> out = []"
      then show ?thesis by simp
    next
      assume "main_launch w = None \<and>
          (\<exists>r l1 l3. crawlSpellListPages (main_list w) = Some (r, l1) \<and> crawlAndPrint w r = (out, l3))"
      then obtain l3 where "crawlAndPrint w (Inr urls) = (out, l3)" using h(1) by auto
      then show ?thesis using crawlAndPrint_reject[OF h(2)] by simp
    qed
  qed
  have d: "out = []" if h: "crawlSpellListPages (main_list w) = Some (Inr urls, l1)" "i < length urls"
    "\<forall>j < nat RETRY_LIMIT. \<exists>e. fst (crawlSpellPage (main_items w i j) (spellPageUrl (urls ! i))) = Inl e"
    for urls l1 i
    using c[OF h(1)] crawlSpellPages_exhausted_item[of i urls "main_items w" mainCallback, OF h(2,3)]
    by blast
  show ?thesis using a b c d by blast
qed


lemma sample_main: "\<exists>lg. main sampleMainWorld = Some ([sampleOutput], lg)"
proof -
  have "map_option fst (main sampleMainWorld) = Some [sampleOutput]" by code_simp
  then show ?thesis by (cases "main sampleMainWorld") auto
qed

lemma failing_main: "\<exists>out lg. main failingMainWorld = Some (out, lg)"
proof -
  have "main failingMainWorld \<noteq> None" by code_simp
  then show ?thesis by auto
qed

lemma noBrowser_main: "\<exists>out lg. main noBrowserWorld = Some (out, lg)"
  by (simp add: main_def noBrowserWorld_def)

lemma sample_crawlSpellListPages: "\<exists>lg. crawlSpellListPages sampleListWorld = Some (Inr sampleRefs, lg)"
proof -
  have "map_option fst (crawlSpellListPages sampleListWorld) = Some (Inr sampleRefs)" by code_simp
  then show ?thesis by (cases "crawlSpellListPages sampleListWorld") auto
qed

theorem output_all_or_nothing_witness:
  "(\<exists>lg. main sampleMainWorld = Some ([sampleOutput], lg)) \<and>
   (\<exists>urls l1 st l2. main_launch sampleMainWorld = None \<and>
       crawlSpellListPages (main_list sampleMainWorld) = Some (Inr urls, l1) \<and> urls \<noteq> [] \<and>
       crawlSpellPages (main_items sampleMainWorld) urls mainCallback \<lparr>spells = [], spellCounter = 0\<rparr> =
         (None, st, l2) \<and>
       [sampleOutput] = [spells st] \<and> length (spells st) = length urls) \<and>
   (\<exists>lg. main failingMainWorld = Some ([], lg)) \<and>
   (\<exists>lg. main noBrowserWorld = Some ([], lg))"
proof -
  obtain lg1 where m1: "main sampleMainWorld = Some ([sampleOutput], lg1)"
    using sample_main by blast
  obtain out2 lg2 where m2: "main failingMainWorld = Some (out2, lg2)"
    using failing_main by blast
  obtain out3 lg3 where m3: "main noBrowserWorld = Some (out3, lg3)"
    using noBrowser_main by blast
  obtain l1 where p: "crawlSpellListPages sampleListWorld = Some (Inr sampleRefs, l1)"
    using sample_crawlSpellListPages by blast
  have dead: "fst (crawlSpellPage deadFetch (spellPageUrl (sampleRefs ! 1))) = Inl netError"
    by code_simp
  have h2: "crawlSpellListPages (main_list failingMainWorld) = Some (Inr sampleRefs, l1) \<and>
      1 < length sampleRefs \<and>
      (\<forall>j < nat RETRY_LIMIT. \<exists>e.
         fst (crawlSpellPage (main_items failingMainWorld 1 j) (spellPageUrl (sampleRefs ! 1))) = Inl e)"
    using p dead by (simp add: failingMainWorld_def sampleRefs_def)
  have h3: "main_launch noBrowserWorld \<noteq> None" by (simp add: noBrowserWorld_def)
  from output_all_or_nothing[OF m1]
  have 1: "\<exists>urls l1 st l2. main_launch sampleMainWorld = None \<and>
       crawlSpellListPages (main_list sampleMainWorld) = Some (Inr urls, l1) \<and> urls \<noteq> [] \<and>
       crawlSpellPages (main_items sampleMainWorld) urls mainCallback \<lparr>spells = [], spellCounter = 0\<rparr> =
         (None, st, l2) \<and>
       [sampleOutput] = [spells st] \<and> length (spells st) = length urls"
    by simp
  from output_all_or_nothing[OF m2] h2 have 2: "out2 = []" by blast
  from output_all_or_nothing[OF m3] h3 have 3: "out3 = []" by blast
  from m1 1 m2 2 m3 3 show ?thesis by blast
qed

section \<open>The list paginator: rows, pages and navigation\<close>

text \<open>The \<^verbatim>\<open>try\<close> block of a row pushes exactly the reference the specification names.\<close>

lemma crawlRow_spec:
  "(case crawlRow row of Inr (Some u) \<Rightarrow> Some u | _ \<Rightarrow> None) = spec_rowRef row"
  by (auto simp: crawlRow_def spec_rowRef_def eval_first_def split: sum.splits option.splits)

lemma rowsLoop_spec:
  "rowsLoop rows acc lg = (acc @ List.map_filter spec_rowRef rows, lg @ concat (map rowWarning rows))"
proof (induction rows arbitrary: acc lg)
  case Nil
  then show ?case by simp
next
  case (Cons row rows)
  show ?case
  proof (cases "crawlRow row")
    case (Inl e)
    then have "spec_rowRef row = None" using crawlRow_spec[of row] by simp
    then show ?thesis using Inl Cons.IH by (simp add: rowWarning_def)
  next
    case (Inr r)
    show ?thesis
    proof (cases r)
      case None
      then have "spec_rowRef row = None" using crawlRow_spec[of row] Inr by simp
      then show ?thesis using Inr None Cons.IH by (simp add: rowWarning_def)
    next
      case (Some u)
      then have "spec_rowRef row = Some u" using crawlRow_spec[of row] Inr by simp
      then show ?thesis using Inr Some Cons.IH by (simp add: rowWarning_def)
    qed
  qed
qed

lemma crawlSpellListPage_spec:
  assumes "queryAll p ''table.common tr'' = Inr rows"
  shows "crawlSpellListPage p =
     (Inr (List.map_filter spec_rowRef rows),
      Log Debug ''Entering crawlSpellListPage()'' None # concat (map rowWarning rows) @
      [Log Debug (''crawlSpellListPage() found '' @
                  show_nat (length (List.map_filter spec_rowRef rows)) @ '' spells.'') None])"
  using assms by (simp add: crawlSpellListPage_def rowsLoop_spec)

lemma navigateLoop_succeeds:
  "nav (j + m) = None \<Longrightarrow> (\<forall>i < m. nav (j + i) \<noteq> None) \<Longrightarrow>
   \<exists>lg'. navigateLoop nav j lg = Some (Suc (j + m), lg')"
proof (induction m arbitrary: j lg)
  case 0
  then show ?case by (subst navigateLoop.simps) simp
next
  case (Suc m)
  from Suc.prems(2) obtain e where e: "nav j = Some e" by force
  have "\<exists>lg'. navigateLoop nav (Suc j)
          (lg @ [Log Warn ''Navigation to next page failed, retrying.'' (Some e)]) =
        Some (Suc (Suc j + m), lg')"
  proof (rule Suc.IH)
    show "nav (Suc j + m) = None" using Suc.prems(1) by simp
    show "\<forall>i<m. nav (Suc j + i) \<noteq> None" using Suc.prems(2) by (metis Suc_less_eq add_Suc_shift)
  qed
  then show ?case using e by (subst navigateLoop.simps) simp
qed

lemma navigateLoop_Some:
  "navigateLoop nav j lg = Some r \<Longrightarrow> j < fst r \<and> nav (fst r - 1) = None"
proof (induction rule: navigateLoop.raw_induct[rotated 1, consumes 1])
  case (1 navigateLoop' nav j lg r)
  show ?case
  proof (cases "nav j")
    case None
    then show ?thesis using 1(2) by auto
  next
    case (Some e)
    then have "navigateLoop' nav (Suc j)
        (lg @ [Log Warn ''Navigation to next page failed, retrying.'' (Some e)]) = Some r"
      using 1(2) by simp
    from 1(1)[OF this] show ?thesis by simp
  qed
qed

lemma navigateLoop_never_gives_up:
  assumes "\<forall>i \<ge> j. nav i \<noteq> None"
  shows "navigateLoop nav j lg = None"
proof (cases "navigateLoop nav j lg")
  case None
  then show ?thesis .
next
  case (Some r)
  from navigateLoop_Some[OF this] have "j \<le> fst r - 1" "nav (fst r - 1) = None" by auto
  then show ?thesis using assms by blast
qed

lemma pagesLoop_error:
  "pagesLoop w i acc lg = Some r \<Longrightarrow> fst r = Inl e \<longrightarrow>
   (\<exists>k. queryAll (list_pages w k) ''table.common tr'' = Inl e \<or>
        queryOne (list_pages w k) ''a.next'' = Inl e)"
proof (induction rule: pagesLoop.raw_induct[rotated 1, consumes 1])
  case (1 pagesLoop' w i acc lg r)
  show ?case
  proof (cases "queryAll (list_pages w i) ''table.common tr''")
    case (Inl e')
    then show ?thesis using 1(2) by (auto simp: crawlSpellListPage_def)
  next
    case (Inr rows)
    note c = crawlSpellListPage_spec[OF Inr]
    show ?thesis
    proof (cases "queryOne (list_pages w i) ''a.next''")
      case (Inl e')
      then show ?thesis using 1(2) c by auto
    next
      case (Inr b)
      show ?thesis
      proof (cases b)
        case None
        then show ?thesis using 1(2) c Inr by auto
      next
        case (Some nextBtn)
        show ?thesis
        proof (cases "navigateLoop (list_navigate w i) 0 [Log Verbose ''Navigating to next spells page.'' None]")
          case None
          then show ?thesis using 1(2) c Inr Some by simp
        next
          case (Some nl)
          obtain n l2 where nl: "nl = (n, l2)" by (cases nl)
          have "\<exists>acc' lg''. pagesLoop' w (Suc i) acc' lg'' = Some r"
            using 1(2) c Inr \<open>b = Some nextBtn\<close> Some nl by auto
          then obtain acc' lg'' where "pagesLoop' w (Suc i) acc' lg'' = Some r" by blast
          from 1(1)[OF this] show ?thesis .
        qed
      qed
    qed
  qed
qed

lemma pagesLoop_spec:
  assumes "\<forall>k \<le> m. queryAll (list_pages w (i + k)) ''table.common tr'' = Inr (rows (i + k))"
    and "\<forall>k < m. \<exists>b. queryOne (list_pages w (i + k)) ''a.next'' = Inr (Some b)"
    and "queryOne (list_pages w (i + m)) ''a.next'' = Inr None"
    and "\<forall>k < m. \<exists>j. list_navigate w (i + k) j = None"
  shows "\<exists>lg'. pagesLoop w i acc lg =
           Some (Inr (acc @ concat (map (\<lambda>k. List.map_filter spec_rowRef (rows k)) [i..<Suc (i + m)])), lg')"
  using assms
proof (induction m arbitrary: i acc lg)
  case 0
  then have q: "queryAll (list_pages w i) ''table.common tr'' = Inr (rows i)" by simp
  show ?case
    apply (subst pagesLoop.simps)
    using 0 by (simp add: crawlSpellListPage_spec[OF q])
next
  case (Suc m)
  have q: "queryAll (list_pages w i) ''table.common tr'' = Inr (rows i)" using Suc.prems(1) by force
  obtain b where b: "queryOne (list_pages w i) ''a.next'' = Inr (Some b)" using Suc.prems(2) by force
  obtain j0 where "list_navigate w i j0 = None" using Suc.prems(4) by force
  define j where "j = (LEAST j. list_navigate w i j = None)"
  have j: "list_navigate w i j = None"
    unfolding j_def using \<open>list_navigate w i j0 = None\<close> by (rule LeastI)
  have "\<forall>k < j. list_navigate w i k \<noteq> None" unfolding j_def using not_less_Least by blast
  with j navigateLoop_succeeds[of "list_navigate w i" 0 j "[Log Verbose ''Navigating to next spells page.'' None]"]
  obtain l2 where n: "navigateLoop (list_navigate w i) 0 [Log Verbose ''Navigating to next spells page.'' None] =
      Some (Suc j, l2)"
    by auto
  have ih: "\<exists>lg'. pagesLoop w (Suc i) acc' lg'' =
      Some (Inr (acc' @ concat (map (\<lambda>k. List.map_filter spec_rowRef (rows k)) [Suc i..<Suc (Suc i + m)])), lg')"
    for acc' lg''
  proof (rule Suc.IH)
    show "\<forall>k\<le>m. queryAll (list_pages w (Suc i + k)) ''table.common tr'' = Inr (rows (Suc i + k))"
      using Suc.prems(1) by (metis Suc_le_mono add_Suc_shift)
    show "\<forall>k<m. \<exists>b. queryOne (list_pages w (Suc i + k)) ''a.next'' = Inr (Some b)"
      using Suc.prems(2) by (metis Suc_less_eq add_Suc_shift)
    show "queryOne (list_pages w (Suc i + m)) ''a.next'' = Inr None"
      using Suc.prems(3) by simp
    show "\<forall>k<m. \<exists>j. list_navigate w (Suc i + k) j = None"
      using Suc.prems(4) by (metis Suc_less_eq add_Suc_shift)
  qed
  have up: "[i..<Suc (i + Suc m)] = i # [Suc i..<Suc (Suc i + m)]"
    by (simp add: upt_conv_Cons)
  define l1 where "l1 = snd (crawlSpellListPage (list_pages w i))"
  have c: "crawlSpellListPage (list_pages w i) = (Inr (List.map_filter spec_rowRef (rows i)), l1)"
    unfolding l1_def by (simp add: crawlSpellListPage_spec[OF q])
  have step: "pagesLoop w i acc lg =
      pagesLoop w (Suc i) (acc @ List.map_filter spec_rowRef (rows i)) (lg @ l1 @ l2)"
    apply (subst pagesLoop.simps)
    using b n c by simp
  from ih[of "acc @ List.map_filter spec_rowRef (rows i)" "lg @ l1 @ l2"]
  show ?case unfolding step up by simp
qed


lemma crawlSpellListPages_error:
  assumes "crawlSpellListPages w = Some (Inl e, lg)"
  shows "list_newPage w = Some e \<or> list_goto w = Some e \<or>
         (\<exists>k. queryAll (list_pages w k) ''table.common tr'' = Inl e \<or>
              queryOne (list_pages w k) ''a.next'' = Inl e)"
proof (cases "list_newPage w")
  case (Some a)
  then show ?thesis using assms by (simp add: crawlSpellListPages_def)
next
  case None
  show ?thesis
  proof (cases "list_goto w")
    case (Some a)
    then show ?thesis using assms None by (simp add: crawlSpellListPages_def)
  next
    case g: None
    from assms None g have "pagesLoop w 0 [] [] = Some (Inl e, lg)"
      by (simp add: crawlSpellListPages_def)
    from pagesLoop_error[OF this] show ?thesis by simp
  qed
qed

text \<open>
  Claim C7. With the tab opened and the index loaded, rows read on every page, and a
  next-page control on the pages before the \<open>n\<close>-th, none on the \<open>n\<close>-th, and every
  navigation made after finitely many tries: the paginator returns, page after page
  and row after row, the references of the rows that are no headers and whose
  rulebook is in \<open>RULEBOOKS\<close>. On each page a row whose parse raises adds one warning
  to the log and no reference, and the rows after it are still read.
\<close>

theorem paginator_returns_listed_references:
  assumes "list_newPage w = None" and "list_goto w = None"
    and "\<forall>i \<le> n. queryAll (list_pages w i) ''table.common tr'' = Inr (rows i)"
    and "\<forall>i < n. \<exists>b. queryOne (list_pages w i) ''a.next'' = Inr (Some b)"
    and "queryOne (list_pages w n) ''a.next'' = Inr None"
    and "\<forall>i < n. \<exists>j. list_navigate w i j = None"
  shows "(\<exists>lg. crawlSpellListPages w =
            Some (Inr (concat (map (\<lambda>i. List.map_filter spec_rowRef (rows i)) [0..<Suc n])), lg)) \<and>
         (\<forall>i \<le> n. crawlSpellListPage (list_pages w i) =
            (Inr (List.map_filter spec_rowRef (rows i)),
             Log Debug ''Entering crawlSpellListPage()'' None # concat (map rowWarning (rows i)) @
             [Log Debug (''crawlSpellListPage() found '' @
                         show_nat (length (List.map_filter spec_rowRef (rows i))) @ '' spells.'') None])) \<and>
         (\<forall>row e. crawlRow row = Inl e \<longrightarrow>
            spec_rowRef row = None \<and>
            rowWarning row = [Log Warn ''Error parsing spell table row.'' (Some e)])"
proof (intro conjI allI impI)
  from pagesLoop_spec[of n w 0 rows "[]" "[]"] assms(3-6)
  obtain lg where "pagesLoop w 0 [] [] =
      Some (Inr (concat (map (\<lambda>i. List.map_filter spec_rowRef (rows i)) [0..<Suc n])), lg)"
    by auto
  then show "\<exists>lg. crawlSpellListPages w =
            Some (Inr (concat (map (\<lambda>i. List.map_filter spec_rowRef (rows i)) [0..<Suc n])), lg)"
    using assms(1,2) by (simp add: crawlSpellListPages_def)
next
  fix i assume "i \<le> n"
  then have "queryAll (list_pages w i) ''table.common tr'' = Inr (rows i)" using assms(3) by simp
  from crawlSpellListPage_spec[OF this]
  show "crawlSpellListPage (list_pages w i) =
            (Inr (List.map_filter spec_rowRef (rows i)),
             Log Debug ''Entering crawlSpellListPage()'' None # concat (map rowWarning (rows i)) @
             [Log Debug (''crawlSpellListPage() found '' @
                         show_nat (length (List.map_filter spec_rowRef (rows i))) @ '' spells.'') None])" .
next
  fix row e assume c: "crawlRow row = Inl e"
  then show "spec_rowRef row = None" using crawlRow_spec[of row] by simp
  from c show "rowWarning row = [Log Warn ''Error parsing spell table row.'' (Some e)]"
    by (simp add: rowWarning_def)
qed

theorem paginator_returns_listed_references_witness:
  "(\<exists>lg. crawlSpellListPages sampleListWorld = Some (Inr sampleRefs, lg)) \<and>
   crawlSpellListPage (list_pages sampleListWorld 0) =
     (Inr [Some ''/spells/a--1/'', Some ''/spells/c--3/'', Some ''/spells/e--5/''],
      [Log Debug ''Entering crawlSpellListPage()'' None,
       Log Warn ''Error parsing spell table row.'' (Some protocolError),
       Log Debug ''crawlSpellListPage() found 3 spells.'' None]) \<and>
   crawlRow staleRow = Inl protocolError \<and>
   spec_rowRef staleRow = None \<and>
   rowWarning staleRow = [Log Warn ''Error parsing spell table row.'' (Some protocolError)]"
proof -
  have a: "list_newPage sampleListWorld = None" "list_goto sampleListWorld = None"
    by (simp_all add: sampleListWorld_def)
  have b: "\<forall>i \<le> 1. queryAll (list_pages sampleListWorld i) ''table.common tr'' = Inr (sampleRows i)"
    by (simp add: sampleListWorld_def listPage_def)
  have c: "\<forall>i < 1. \<exists>b. queryOne (list_pages sampleListWorld i) ''a.next'' = Inr (Some b)"
    by (simp add: sampleListWorld_def listPage_def)
  have d: "queryOne (list_pages sampleListWorld 1) ''a.next'' = Inr None"
    by (simp add: sampleListWorld_def listPage_def)
  have e: "\<forall>i < 1. \<exists>j. list_navigate sampleListWorld i j = None"
    by (auto simp: sampleListWorld_def intro: exI[of _ 2])
  note t = paginator_returns_listed_references[OF a b c d e]
  have v: "concat (map (\<lambda>i. List.map_filter spec_rowRef (sampleRows i)) [0..<Suc 1]) = sampleRefs"
    by code_simp
  have v0: "List.map_filter spec_rowRef (sampleRows 0) =
      [Some ''/spells/a--1/'', Some ''/spells/c--3/'', Some ''/spells/e--5/'']"
    by code_simp
  have w0: "concat (map rowWarning (sampleRows 0)) =
      [Log Warn ''Error parsing spell table row.'' (Some protocolError)]"
    by code_simp
  have n3: "show_nat (Suc (Suc (Suc 0))) = ''3''"
    by code_simp
  have s: "crawlRow staleRow = Inl protocolError" by code_simp
  from t v have 1: "\<exists>lg. crawlSpellListPages sampleListWorld = Some (Inr sampleRefs, lg)" by simp
  from t have "crawlSpellListPage (list_pages sampleListWorld 0) =
            (Inr (List.map_filter spec_rowRef (sampleRows 0)),
             Log Debug ''Entering crawlSpellListPage()'' None # concat (map rowWarning (sampleRows 0)) @
             [Log Debug (''crawlSpellListPage() found '' @
                         show_nat (length (List.map_filter spec_rowRef (sampleRows 0))) @ '' spells.'') None])"
    by blast
  then have 2: "crawlSpellListPage (list_pages sampleListWorld 0) =
     (Inr [Some ''/spells/a--1/'', Some ''/spells/c--3/'', Some ''/spells/e--5/''],
      [Log Debug ''Entering crawlSpellListPage()'' None,
       Log Warn ''Error parsing spell table row.'' (Some protocolError),
       Log Debug ''crawlSpellListPage() found 3 spells.'' None])"
    unfolding v0 w0 using n3 by simp
  from t s have 3: "spec_rowRef staleRow = None"
    "rowWarning staleRow = [Log Warn ''Error parsing spell table row.'' (Some protocolError)]"
    by blast+
  from 1 2 s 3 show ?thesis by blast
qed

text \<open>
  The tries of a navigation that returns: all but the last raise. Hence the number of
  tries depends only on which tries raise, not on the errors they raise.
\<close>

lemma navigateLoop_Some_first:
  "navigateLoop nav j lg = Some r \<Longrightarrow> (\<forall>k. j \<le> k \<and> k < fst r - 1 \<longrightarrow> nav k \<noteq> None)"
proof (induction rule: navigateLoop.raw_induct[rotated 1, consumes 1])
  case (1 navigateLoop' nav j lg r)
  show ?case
  proof (cases "nav j")
    case None
    then show ?thesis using 1(2) by auto
  next
    case (Some e)
    then have "navigateLoop' nav (Suc j)
        (lg @ [Log Warn ''Navigation to next page failed, retrying.'' (Some e)]) = Some r"
      using 1(2) by simp
    from 1(1)[OF this] have ih: "\<forall>k. Suc j \<le> k \<and> k < fst r - 1 \<longrightarrow> nav k \<noteq> None" .
    show ?thesis
    proof (intro allI impI)
      fix k assume k: "j \<le> k \<and> k < fst r - 1"
      show "nav k \<noteq> None"
      proof (cases "k = j")
        case True
        then show ?thesis using Some by simp
      next
        case False
        then have "Suc j \<le> k \<and> k < fst r - 1" using k by simp
        then show ?thesis using ih by blast
      qed
    qed
  qed
qed

lemma navigateLoop_cong:
  assumes "\<forall>k. (nav k = None) = (nav' k = None)"
    and "navigateLoop nav j lg = Some (n, l)"
  shows "\<exists>l'. navigateLoop nav' j lg2 = Some (n, l')"
proof -
  from navigateLoop_Some[OF assms(2)] have n: "j < n" "nav (n - 1) = None" by simp_all
  from navigateLoop_Some_first[OF assms(2)]
  have f: "\<forall>k. j \<le> k \<and> k < n - 1 \<longrightarrow> nav k \<noteq> None" by simp
  define m where "m = n - 1 - j"
  have jm: "j + m = n - 1" using n(1) by (simp add: m_def)
  have a: "nav' (j + m) = None" using n(2) assms(1) jm by simp
  have b: "\<forall>i < m. nav' (j + i) \<noteq> None"
  proof (intro allI impI)
    fix i assume "i < m"
    then have "j \<le> j + i \<and> j + i < n - 1" using jm by simp
    then have "nav (j + i) \<noteq> None" using f by blast
    then show "nav' (j + i) \<noteq> None" using assms(1) by simp
  qed
  from navigateLoop_succeeds[OF a b, of lg2] jm n(1) show ?thesis by simp
qed

text \<open>
  What the paginator returns or raises depends on the navigations only through the
  tries that raise.
\<close>

lemma pagesLoop_cong:
  "pagesLoop w i acc lg = Some r \<Longrightarrow>
   list_pages w' = list_pages w \<and>
   (\<forall>i k. (list_navigate w i k = None) = (list_navigate w' i k = None)) \<longrightarrow>
   (\<forall>lg2. \<exists>l'. pagesLoop w' i acc lg2 = Some (fst r, l'))"
proof (induction rule: pagesLoop.raw_induct[rotated 1, consumes 1])
  case (1 pagesLoop' w i acc lg r)
  show ?case
  proof (intro impI allI)
    fix lg2
    assume h: "list_pages w' = list_pages w \<and>
        (\<forall>i k. (list_navigate w i k = None) = (list_navigate w' i k = None))"
    then have p: "list_pages w' i = list_pages w i" by simp
    obtain res l1 where c: "crawlSpellListPage (list_pages w i) = (res, l1)"
      by (cases "crawlSpellListPage (list_pages w i)")
    show "\<exists>l'. pagesLoop w' i acc lg2 = Some (fst r, l')"
    proof (cases res)
      case (Inl e)
      then have "fst r = Inl e" using 1(2) c by auto
      then show ?thesis using c Inl p by (subst pagesLoop.simps) simp
    next
      case new: (Inr newSpellUrls)
      show ?thesis
      proof (cases "queryOne (list_pages w i) ''a.next''")
        case (Inl e)
        then have "fst r = Inl e" using 1(2) c new by auto
        then show ?thesis using c new Inl p by (subst pagesLoop.simps) simp
      next
        case q: (Inr b)
        show ?thesis
        proof (cases b)
          case None
          then have "fst r = Inr (acc @ newSpellUrls)" using 1(2) c new q by auto
          then show ?thesis using c new q None p by (subst pagesLoop.simps) simp
        next
          case btn: (Some nextBtn)
          show ?thesis
          proof (cases "navigateLoop (list_navigate w i) 0 [Log Verbose ''Navigating to next spells page.'' None]")
            case None
            then show ?thesis using 1(2) c new q btn by simp
          next
            case (Some nl)
            obtain n l2 where nl: "nl = (n, l2)" by (cases nl)
            have rec: "pagesLoop' w (Suc i) (acc @ newSpellUrls) (lg @ l1 @ l2) = Some r"
              using 1(2) c new q btn Some nl by simp
            have "\<forall>k. (list_navigate w i k = None) = (list_navigate w' i k = None)"
              using h by simp
            from navigateLoop_cong[OF this Some[unfolded nl],
                of "[Log Verbose ''Navigating to next spells page.'' None]"]
            obtain l2' where n': "navigateLoop (list_navigate w' i) 0
                [Log Verbose ''Navigating to next spells page.'' None] = Some (n, l2')"
              by blast
            from 1(1)[OF rec] h
            obtain l' where "pagesLoop w' (Suc i) (acc @ newSpellUrls) (lg2 @ l1 @ l2') = Some (fst r, l')"
              by blast
            then show ?thesis using c new q btn n' p by (subst pagesLoop.simps) simp
          qed
        qed
      qed
    qed
  qed
qed

lemma crawlSpellListPages_cong:
  assumes "list_newPage w' = list_newPage w" and "list_goto w' = list_goto w"
    and "list_pages w' = list_pages w"
    and "\<forall>i k. (list_navigate w i k = None) = (list_navigate w' i k = None)"
  shows "map_option fst (crawlSpellListPages w') = map_option fst (crawlSpellListPages w)"
proof -
  have a: "\<exists>l'. pagesLoop w' 0 [] [] = Some (fst r, l')" if "pagesLoop w 0 [] [] = Some r" for r
    using pagesLoop_cong[OF that, of w'] assms(3,4) by blast
  have b: "\<exists>l'. pagesLoop w 0 [] [] = Some (fst r, l')" if "pagesLoop w' 0 [] [] = Some r" for r
    using pagesLoop_cong[OF that, of w] assms(3,4) by simp
  have "map_option fst (pagesLoop w' 0 [] []) = map_option fst (pagesLoop w 0 [] [])"
  proof (cases "pagesLoop w 0 [] []")
    case None
    show ?thesis
    proof (cases "pagesLoop w' 0 [] []")
      case n: None
      then show ?thesis using None by simp
    next
      case (Some r)
      from b[OF this] None show ?thesis by simp
    qed
  next
    case (Some r)
    from a[OF this] Some show ?thesis by auto
  qed
  then show ?thesis using assms(1,2)
    by (simp add: crawlSpellListPages_def split: option.splits)
qed

text \<open>
  When the pages up to the \<open>m\<close>-th after \<open>i\<close> are reached and every try of the navigation
  on that page raises, the paginator neither returns nor raises.
\<close>

lemma pagesLoop_diverges:
  assumes "\<forall>k \<le> m. \<exists>rs. queryAll (list_pages w (i + k)) ''table.common tr'' = Inr rs"
    and "\<forall>k \<le> m. \<exists>b. queryOne (list_pages w (i + k)) ''a.next'' = Inr (Some b)"
    and "\<forall>k < m. \<exists>j. list_navigate w (i + k) j = None"
    and "\<forall>j. list_navigate w (i + m) j \<noteq> None"
  shows "pagesLoop w i acc lg = None"
  using assms
proof (induction m arbitrary: i acc lg)
  case 0
  from 0(1) obtain rs where q: "queryAll (list_pages w i) ''table.common tr'' = Inr rs" by force
  from 0(2) obtain b where b: "queryOne (list_pages w i) ''a.next'' = Inr (Some b)" by force
  have "\<forall>j \<ge> 0. list_navigate w i j \<noteq> None" using 0(4) by simp
  from navigateLoop_never_gives_up[OF this]
  have n: "navigateLoop (list_navigate w i) 0 [Log Verbose ''Navigating to next spells page.'' None] = None" .
  show ?case
    apply (subst pagesLoop.simps)
    using b n by (simp add: crawlSpellListPage_spec[OF q])
next
  case (Suc m)
  from Suc.prems(1) obtain rs where q: "queryAll (list_pages w i) ''table.common tr'' = Inr rs" by force
  from Suc.prems(2) obtain b where b: "queryOne (list_pages w i) ''a.next'' = Inr (Some b)" by force
  obtain j0 where "list_navigate w i j0 = None" using Suc.prems(3) by force
  define j where "j = (LEAST j. list_navigate w i j = None)"
  have j: "list_navigate w i j = None"
    unfolding j_def using \<open>list_navigate w i j0 = None\<close> by (rule LeastI)
  have "\<forall>k < j. list_navigate w i k \<noteq> None" unfolding j_def using not_less_Least by blast
  with j navigateLoop_succeeds[of "list_navigate w i" 0 j "[Log Verbose ''Navigating to next spells page.'' None]"]
  obtain l2 where n: "navigateLoop (list_navigate w i) 0 [Log Verbose ''Navigating to next spells page.'' None] =
      Some (Suc j, l2)"
    by auto
  have ih: "pagesLoop w (Suc i) acc' lg'' = None" for acc' lg''
  proof (rule Suc.IH)
    show "\<forall>k\<le>m. \<exists>rs. queryAll (list_pages w (Suc i + k)) ''table.common tr'' = Inr rs"
      using Suc.prems(1) by (metis Suc_le_mono add_Suc_shift)
    show "\<forall>k\<le>m. \<exists>b. queryOne (list_pages w (Suc i + k)) ''a.next'' = Inr (Some b)"
      using Suc.prems(2) by (metis Suc_le_mono add_Suc_shift)
    show "\<forall>k<m. \<exists>j. list_navigate w (Suc i + k) j = None"
      using Suc.prems(3) by (metis Suc_less_eq add_Suc_shift)
    show "\<forall>j. list_navigate w (Suc i + m) j \<noteq> None"
      using Suc.prems(4) by simp
  qed
  define l1 where "l1 = snd (crawlSpellListPage (list_pages w i))"
  have c: "crawlSpellListPage (list_pages w i) = (Inr (List.map_filter spec_rowRef rs), l1)"
    unfolding l1_def by (simp add: crawlSpellListPage_spec[OF q])
  have step: "pagesLoop w i acc lg =
      pagesLoop w (Suc i) (acc @ List.map_filter spec_rowRef rs) (lg @ l1 @ l2)"
    apply (subst pagesLoop.simps)
    using b n c by simp
  show ?case unfolding step by (rule ih)
qed

text \<open>
  Claim C8. The retry loop of the navigation has no attempt limit: whatever the number
  \<open>m\<close> of tries that raise, it goes on and returns at the first try that does not; it
  returns only after a try that did not raise; and while every try raises it never
  returns and never raises. For the paginator this means: an error that
  \<open>crawlSpellListPages\<close> raises is the error of opening the tab, of the first load, or
  of a query on one of the pages; when the navigation on each page before the last
  raises on any number \<open>tries i\<close> of tries and is made at the next one, the paginator
  still returns the references of all the pages; when the pages up to the \<open>n\<close>-th are
  reached and every try of the navigation on that page raises, the paginator neither
  returns nor raises; and what the paginator returns or raises is the same for two
  browsers that differ only in the errors their failed navigations raise.
\<close>

theorem navigation_retried_without_limit:
  "(nav (j + m) = None \<and> (\<forall>i < m. nav (j + i) \<noteq> None) \<longrightarrow>
      (\<exists>lg'. navigateLoop nav j lg = Some (Suc (j + m), lg'))) \<and>
   (navigateLoop nav j lg = Some (n, lg') \<longrightarrow> j < n \<and> nav (n - 1) = None) \<and>
   ((\<forall>i \<ge> j. nav i \<noteq> None) \<longrightarrow> navigateLoop nav j lg = None) \<and>
   (crawlSpellListPages w = Some (Inl e, lg'') \<longrightarrow>
      list_newPage w = Some e \<or> list_goto w = Some e \<or>
      (\<exists>k. queryAll (list_pages w k) ''table.common tr'' = Inl e \<or>
           queryOne (list_pages w k) ''a.next'' = Inl e)) \<and>
   (list_newPage w = None \<and> list_goto w = None \<and>
    (\<forall>i \<le> p. queryAll (list_pages w i) ''table.common tr'' = Inr (rows i)) \<and>
    (\<forall>i < p. \<exists>b. queryOne (list_pages w i) ''a.next'' = Inr (Some b)) \<and>
    queryOne (list_pages w p) ''a.next'' = Inr None \<and>
    (\<forall>i < p. list_navigate w i (tries i) = None \<and>
             (\<forall>t < tries i. list_navigate w i t \<noteq> None)) \<longrightarrow>
      (\<exists>lg. crawlSpellListPages w =
         Some (Inr (concat (map (\<lambda>i. List.map_filter spec_rowRef (rows i)) [0..<Suc p])), lg))) \<and>
   (list_newPage w = None \<and> list_goto w = None \<and>
    (\<forall>i \<le> p. \<exists>rs. queryAll (list_pages w i) ''table.common tr'' = Inr rs) \<and>
    (\<forall>i \<le> p. \<exists>b. queryOne (list_pages w i) ''a.next'' = Inr (Some b)) \<and>
    (\<forall>i < p. \<exists>t. list_navigate w i t = None) \<and>
    (\<forall>t. list_navigate w p t \<noteq> None) \<longrightarrow>
      crawlSpellListPages w = None) \<and>
   (list_newPage w' = list_newPage w \<and> list_goto w' = list_goto w \<and>
    list_pages w' = list_pages w \<and>
    (\<forall>i t. (list_navigate w i t = None) = (list_navigate w' i t = None)) \<longrightarrow>
      map_option fst (crawlSpellListPages w') = map_option fst (crawlSpellListPages w))"
proof (intro conjI impI)
  assume "nav (j + m) = None \<and> (\<forall>i < m. nav (j + i) \<noteq> None)"
  then show "\<exists>lg'. navigateLoop nav j lg = Some (Suc (j + m), lg')"
    using navigateLoop_succeeds by blast
next
  assume a: "navigateLoop nav j lg = Some (n, lg')"
  from navigateLoop_Some[OF a] show "j < n" "nav (n - 1) = None" by simp_all
next
  assume "\<forall>i \<ge> j. nav i \<noteq> None"
  then show "navigateLoop nav j lg = None" by (rule navigateLoop_never_gives_up)
next
  assume "crawlSpellListPages w = Some (Inl e, lg'')"
  then show "list_newPage w = Some e \<or> list_goto w = Some e \<or>
      (\<exists>k. queryAll (list_pages w k) ''table.common tr'' = Inl e \<or>
           queryOne (list_pages w k) ''a.next'' = Inl e)"
    by (rule crawlSpellListPages_error)
next
  assume h: "list_newPage w = None \<and> list_goto w = None \<and>
    (\<forall>i \<le> p. queryAll (list_pages w i) ''table.common tr'' = Inr (rows i)) \<and>
    (\<forall>i < p. \<exists>b. queryOne (list_pages w i) ''a.next'' = Inr (Some b)) \<and>
    queryOne (list_pages w p) ''a.next'' = Inr None \<and>
    (\<forall>i < p. list_navigate w i (tries i) = None \<and>
             (\<forall>t < tries i. list_navigate w i t \<noteq> None))"
  then have nv: "\<forall>k < p. \<exists>t. list_navigate w (0 + k) t = None" by auto
  from h have q: "\<forall>k \<le> p. queryAll (list_pages w (0 + k)) ''table.common tr'' = Inr (rows (0 + k))"
    and b: "\<forall>k < p. \<exists>b. queryOne (list_pages w (0 + k)) ''a.next'' = Inr (Some b)"
    and l: "queryOne (list_pages w (0 + p)) ''a.next'' = Inr None"
    by simp_all
  from pagesLoop_spec[OF q b l nv, of "[]" "[]"]
  obtain lg where "pagesLoop w 0 [] [] =
      Some (Inr (concat (map (\<lambda>i. List.map_filter spec_rowRef (rows i)) [0..<Suc p])), lg)"
    by auto
  then show "\<exists>lg. crawlSpellListPages w =
      Some (Inr (concat (map (\<lambda>i. List.map_filter spec_rowRef (rows i)) [0..<Suc p])), lg)"
    using h by (simp add: crawlSpellListPages_def)
next
  assume h: "list_newPage w = None \<and> list_goto w = None \<and>
    (\<forall>i \<le> p. \<exists>rs. queryAll (list_pages w i) ''table.common tr'' = Inr rs) \<and>
    (\<forall>i \<le> p. \<exists>b. queryOne (list_pages w i) ''a.next'' = Inr (Some b)) \<and>
    (\<forall>i < p. \<exists>t. list_navigate w i t = None) \<and>
    (\<forall>t. list_navigate w p t \<noteq> None)"
  then have q: "\<forall>k \<le> p. \<exists>rs. queryAll (list_pages w (0 + k)) ''table.common tr'' = Inr rs"
    and b: "\<forall>k \<le> p. \<exists>b. queryOne (list_pages w (0 + k)) ''a.next'' = Inr (Some b)"
    and nv: "\<forall>k < p. \<exists>t. list_navigate w (0 + k) t = None"
    and st: "\<forall>t. list_navigate w (0 + p) t \<noteq> None"
    by simp_all
  from pagesLoop_diverges[OF q b nv st, of "[]" "[]"] h
  show "crawlSpellListPages w = None"
    by (simp add: crawlSpellListPages_def)
next
  assume "list_newPage w' = list_newPage w \<and> list_goto w' = list_goto w \<and>
    list_pages w' = list_pages w \<and>
    (\<forall>i t. (list_navigate w i t = None) = (list_navigate w' i t = None))"
  then show "map_option fst (crawlSpellListPages w') = map_option fst (crawlSpellListPages w)"
    using crawlSpellListPages_cong by blast
qed

theorem navigation_retried_without_limit_witness:
  "(\<exists>lg'. navigateLoop (list_navigate sampleListWorld 0) 0 [] = Some (3, lg')) \<and>
   list_navigate sampleListWorld 0 2 = None \<and>
   navigateLoop (\<lambda>j. Some netError) 0 [] = None \<and>
   crawlSpellListPages noIndexWorld = Some (Inl netError, []) \<and>
   (list_newPage noIndexWorld = Some netError \<or> list_goto noIndexWorld = Some netError \<or>
      (\<exists>k. queryAll (list_pages noIndexWorld k) ''table.common tr'' = Inl netError \<or>
           queryOne (list_pages noIndexWorld k) ''a.next'' = Inl netError)) \<and>
   list_navigate sampleListWorld 0 0 = Some netError \<and>
   list_navigate sampleListWorld 0 1 = Some netError \<and>
   (\<exists>lg. crawlSpellListPages sampleListWorld = Some (Inr sampleRefs, lg)) \<and>
   crawlSpellListPages stuckListWorld = None \<and>
   map_option fst (crawlSpellListPages protocolListWorld) =
     map_option fst (crawlSpellListPages sampleListWorld)"
proof -
  have a: "list_navigate sampleListWorld 0 (0 + 2) = None \<and>
      (\<forall>i < 2. list_navigate sampleListWorld 0 (0 + i) \<noteq> None)"
    by (simp add: sampleListWorld_def)
  note t1 = navigation_retried_without_limit[where nav = "list_navigate sampleListWorld 0" and j = 0
      and m = 2 and lg = "[]", THEN conjunct1]
  from t1 a
  have "\<exists>l. navigateLoop (list_navigate sampleListWorld 0) 0 [] = Some (Suc (0 + 2), l)"
    by (rule mp)
  then obtain l where l: "navigateLoop (list_navigate sampleListWorld 0) 0 [] = Some (3, l)"
    by auto
  then have 1: "\<exists>lg'. navigateLoop (list_navigate sampleListWorld 0) 0 [] = Some (3, lg')"
    by blast
  note t2 = navigation_retried_without_limit[where nav = "list_navigate sampleListWorld 0" and j = 0
      and lg = "[]" and n = 3 and lg' = l, THEN conjunct2, THEN conjunct1]
  from t2 l have "0 < (3::nat) \<and> list_navigate sampleListWorld 0 (3 - 1) = None"
    by (rule mp)
  then have 2: "list_navigate sampleListWorld 0 2 = None" by simp
  have n: "\<forall>i \<ge> 0. (\<lambda>j. Some netError) i \<noteq> None" by simp
  note t3 = navigation_retried_without_limit[where nav = "\<lambda>j. Some netError" and j = 0 and lg = "[]",
      THEN conjunct2, THEN conjunct2, THEN conjunct1]
  from t3 n have 3: "navigateLoop (\<lambda>j. Some netError) 0 [] = None"
    by (rule mp)
  have 4: "crawlSpellListPages noIndexWorld = Some (Inl netError, [])"
    by (simp add: crawlSpellListPages_def noIndexWorld_def sampleListWorld_def)
  note t4 = navigation_retried_without_limit[where w = noIndexWorld and e = netError and lg'' = "[]",
      THEN conjunct2, THEN conjunct2, THEN conjunct2, THEN conjunct1]
  from t4 4
  have 5: "list_newPage noIndexWorld = Some netError \<or> list_goto noIndexWorld = Some netError \<or>
      (\<exists>k. queryAll (list_pages noIndexWorld k) ''table.common tr'' = Inl netError \<or>
           queryOne (list_pages noIndexWorld k) ''a.next'' = Inl netError)"
    by (rule mp)
  have 6: "list_navigate sampleListWorld 0 0 = Some netError"
    "list_navigate sampleListWorld 0 1 = Some netError"
    by (simp_all add: sampleListWorld_def)
  have s: "list_newPage sampleListWorld = None \<and> list_goto sampleListWorld = None \<and>
    (\<forall>i \<le> 1. queryAll (list_pages sampleListWorld i) ''table.common tr'' = Inr (sampleRows i)) \<and>
    (\<forall>i < 1. \<exists>b. queryOne (list_pages sampleListWorld i) ''a.next'' = Inr (Some b)) \<and>
    queryOne (list_pages sampleListWorld 1) ''a.next'' = Inr None \<and>
    (\<forall>i < 1. list_navigate sampleListWorld i ((\<lambda>i. 2) i) = None \<and>
             (\<forall>t < (\<lambda>i. 2) i. list_navigate sampleListWorld i t \<noteq> None))"
    by (simp add: sampleListWorld_def listPage_def)
  have v: "concat (map (\<lambda>i. List.map_filter spec_rowRef (sampleRows i)) [0..<Suc 1]) = sampleRefs"
    by code_simp
  note t5 = navigation_retried_without_limit[where w = sampleListWorld and p = 1 and rows = sampleRows
      and tries = "\<lambda>i. 2", THEN conjunct2, THEN conjunct2, THEN conjunct2, THEN conjunct2,
      THEN conjunct1]
  from t5 s
  have "\<exists>lg. crawlSpellListPages sampleListWorld =
      Some (Inr (concat (map (\<lambda>i. List.map_filter spec_rowRef (sampleRows i)) [0..<Suc 1])), lg)"
    by (rule mp)
  then have 7: "\<exists>lg. crawlSpellListPages sampleListWorld = Some (Inr sampleRefs, lg)"
    unfolding v .
  have st: "list_newPage stuckListWorld = None \<and> list_goto stuckListWorld = None \<and>
    (\<forall>i \<le> 0. \<exists>rs. queryAll (list_pages stuckListWorld i) ''table.common tr'' = Inr rs) \<and>
    (\<forall>i \<le> 0. \<exists>b. queryOne (list_pages stuckListWorld i) ''a.next'' = Inr (Some b)) \<and>
    (\<forall>i < 0. \<exists>t. list_navigate stuckListWorld i t = None) \<and>
    (\<forall>t. list_navigate stuckListWorld 0 t \<noteq> None)"
    by (simp add: stuckListWorld_def sampleListWorld_def listPage_def)
  note t6 = navigation_retried_without_limit[where w = stuckListWorld and p = 0,
      THEN conjunct2, THEN conjunct2, THEN conjunct2, THEN conjunct2, THEN conjunct2, THEN conjunct1]
  from t6 st have 8: "crawlSpellListPages stuckListWorld = None"
    by (rule mp)
  have pr: "list_newPage protocolListWorld = list_newPage sampleListWorld \<and>
    list_goto protocolListWorld = list_goto sampleListWorld \<and>
    list_pages protocolListWorld = list_pages sampleListWorld \<and>
    (\<forall>i t. (list_navigate sampleListWorld i t = None) = (list_navigate protocolListWorld i t = None))"
    by (simp add: protocolListWorld_def sampleListWorld_def)
  note t7 = navigation_retried_without_limit[where w = sampleListWorld and w' = protocolListWorld,
      THEN conjunct2, THEN conjunct2, THEN conjunct2, THEN conjunct2, THEN conjunct2, THEN conjunct2]
  from t7 pr
  have 9: "map_option fst (crawlSpellListPages protocolListWorld) =
     map_option fst (crawlSpellListPages sampleListWorld)"
    by (rule mp)
  show ?thesis
    by (intro conjI) (rule 1 2 3 4 5 6 7 8 9)+
qed

end
